theory Spec2Isabelle
  imports Main
begin

section \<open>JavaScript strings\<close>

text \<open>
  Source strings are modelled as \<open>string\<close> over the ASCII range. The rules only use
  \<open>toLowerCase\<close>, \<open>includes\<close>, \<open>startsWith\<close>, \<open>endsWith\<close> and regular
  expressions on them.
\<close>

definition upper_chars :: string where
  "upper_chars = ''ABCDEFGHIJKLMNOPQRSTUVWXYZ''"

definition lower_chars :: string where
  "lower_chars = ''abcdefghijklmnopqrstuvwxyz''"

definition digit_chars :: string where
  "digit_chars = ''0123456789''"

definition lower_char :: "char \<Rightarrow> char" where
  "lower_char c = (case map_of (zip upper_chars lower_chars) c of Some l \<Rightarrow> l | None \<Rightarrow> c)"

definition toLowerCase :: "string \<Rightarrow> string" where
  "toLowerCase s = map lower_char s"

fun startsWith :: "string \<Rightarrow> string \<Rightarrow> bool" where
  "startsWith s [] = True"
| "startsWith [] (p # ps) = False"
| "startsWith (c # cs) (p # ps) = (c = p \<and> startsWith cs ps)"

definition endsWith :: "string \<Rightarrow> string \<Rightarrow> bool" where
  "endsWith s p = startsWith (rev s) (rev p)"

fun str_includes :: "string \<Rightarrow> string \<Rightarrow> bool" where
  "str_includes [] p = (p = [])"
| "str_includes (c # cs) p = (startsWith (c # cs) p \<or> str_includes cs p)"

text \<open>\<open>arr[i]\<close> with \<open>?.\<close> on the result: an index out of range is \<open>undefined\<close>.\<close>

fun nth_opt :: "'a list \<Rightarrow> nat \<Rightarrow> 'a option" where
  "nth_opt [] n = None"
| "nth_opt (x # xs) 0 = Some x"
| "nth_opt (x # xs) (Suc n) = nth_opt xs n"

section \<open>Regular expressions\<close>

text \<open>
  A backtracking matcher for the fragment of JavaScript regular expressions that the
  rules use. \<open>ms r s (rest, cap)\<close> lists, in the priority order of the backtracking
  search, every way \<open>r\<close> can match a prefix of \<open>rest\<close>, where \<open>s\<close> is the whole subject
  (for \<open>^\<close>) and \<open>cap\<close> the text captured so far by the capture group.
  A greedy star tries one more iteration first, a lazy star tries to stop first; an
  iteration that consumes nothing is rejected, as in the language specification.
\<close>

datatype rx =
    Chr "char \<Rightarrow> bool"
  | Bol
  | Eol
  | Eps
  | Seq rx rx
  | Alt rx rx
  | Star rx
  | Lazy rx
  | Grp rx

type_synonym mstate = "string \<times> string option"

function ms :: "rx \<Rightarrow> string \<Rightarrow> mstate \<Rightarrow> mstate list" where
  "ms (Chr p) s (rest, cap) =
     (case rest of [] \<Rightarrow> [] | c # cs \<Rightarrow> if p c then [(cs, cap)] else [])"
| "ms Bol s (rest, cap) = (if length rest = length s then [(rest, cap)] else [])"
| "ms Eol s (rest, cap) = (if rest = [] then [(rest, cap)] else [])"
| "ms Eps s (rest, cap) = [(rest, cap)]"
| "ms (Seq a b) s (rest, cap) = concat (map (ms b s) (ms a s (rest, cap)))"
| "ms (Alt a b) s (rest, cap) = ms a s (rest, cap) @ ms b s (rest, cap)"
| "ms (Star a) s (rest, cap) =
     concat (map (\<lambda>st. if length (fst st) < length rest then ms (Star a) s st else [])
                 (ms a s (rest, cap)))
     @ [(rest, cap)]"
| "ms (Lazy a) s (rest, cap) =
     (rest, cap) #
     concat (map (\<lambda>st. if length (fst st) < length rest then ms (Lazy a) s st else [])
                 (ms a s (rest, cap)))"
| "ms (Grp a) s (rest, cap) =
     map (\<lambda>st. (fst st, Some (take (length rest - length (fst st)) rest)))
         (ms a s (rest, cap))"
  by pat_completeness auto
termination
  by (relation "inv_image (less_than <*lex*> less_than) (\<lambda>(r, s, st). (size r, length (fst st)))")
     auto

text \<open>\<open>re.exec(s)\<close> without the \<open>g\<close> flag: the first match at the leftmost start.\<close>

fun exec_from :: "rx \<Rightarrow> string \<Rightarrow> string \<Rightarrow> mstate option" where
  "exec_from r s rest =
     (case ms r s (rest, None) of
        m # _ \<Rightarrow> Some m
      | [] \<Rightarrow> (case rest of [] \<Rightarrow> None | _ # cs \<Rightarrow> exec_from r s cs))"

definition exec :: "rx \<Rightarrow> string \<Rightarrow> mstate option" where
  "exec r s = exec_from r s s"

definition test :: "rx \<Rightarrow> string \<Rightarrow> bool" where
  "test r s = (exec r s \<noteq> None)"

text \<open>The capture group of a match, \<open>m[1]\<close>; \<open>None\<close> when there is no match.\<close>

definition capture1 :: "rx \<Rightarrow> string \<Rightarrow> string option" where
  "capture1 r s = (case exec r s of Some (_, cap) \<Rightarrow> cap | None \<Rightarrow> None)"

text \<open>Pattern syntax.\<close>

definition chr :: "char \<Rightarrow> rx" where
  "chr c = Chr (\<lambda>x. x = c)"

definition chr_i :: "char \<Rightarrow> rx" where
  "chr_i c = Chr (\<lambda>x. lower_char x = lower_char c)"

definition cls :: "string \<Rightarrow> rx" where
  "cls cs = Chr (\<lambda>x. x \<in> set cs)"

fun seqs :: "rx list \<Rightarrow> rx" where
  "seqs [] = Eps"
| "seqs [r] = r"
| "seqs (r # rs) = Seq r (seqs rs)"

definition lit :: "string \<Rightarrow> rx" where
  "lit s = seqs (map chr s)"

definition lit_i :: "string \<Rightarrow> rx" where
  "lit_i s = seqs (map chr_i s)"

definition rx_plus :: "rx \<Rightarrow> rx" where
  "rx_plus r = Seq r (Star r)"

definition rx_opt :: "rx \<Rightarrow> rx" where
  "rx_opt r = Alt r Eps"

text \<open>\<open>\s\<close>, \<open>\w\<close> and \<open>.\<close> on the ASCII range.\<close>

definition space_chars :: string where
  "space_chars = [CHR 0x09, CHR 0x0A, CHR 0x0B, CHR 0x0C, CHR 0x0D, CHR '' '']"

definition rx_space :: rx where
  "rx_space = cls space_chars"

definition rx_word :: rx where
  "rx_word = cls (lower_chars @ upper_chars @ digit_chars @ ''_'')"

definition rx_dot :: rx where
  "rx_dot = Chr (\<lambda>x. x \<noteq> CHR 0x0A \<and> x \<noteq> CHR 0x0D)"

section \<open>Syntax trees\<close>

text \<open>
  The ESTree nodes the rules inspect. \<open>OtherNode\<close> stands for every node kind no rule
  looks into (statements, declarations, \<open>await\<close>, operators ...), with its kind and its
  children in visiting order. A template literal carries the raw text of its quasis and
  its interpolated expressions.

  A literal's value is a string, a boolean, \<open>null\<close>, a number, or a bigint or a
  regular expression. The rules ask of a value only whether it is a string, and what
  \<open>String\<close> makes of it; so a number is kept as the text \<open>String\<close> gives it
  (\<open>5\<close> as \<open>''5''\<close>, \<open>1.5\<close> as \<open>''1.5''\<close>, \<open>1e21\<close> as \<open>''1e+21''\<close>), and a
  bigint or regular expression likewise, under \<open>LOther\<close>.
\<close>

datatype lit = LStr string | LNum string | LBool bool | LNull | LOther string

datatype node =
    Identifier string
  | Literal lit
  | TemplateLiteral "string list" "node list"
  | CallExpression node "node list"
  | MemberExpression node node
  | ObjectExpression "node list"
  | Property node node
  | SpreadElement node
  | ArrowFunctionExpression "node list" node
  | FunctionExpression "node list" node
  | BlockStatement "node list"
  | ReturnStatement "node option"
  | Program "node list"
  | OtherNode string "node list"

definition isCall :: "node \<Rightarrow> bool" where
  "isCall n = (case n of CallExpression _ _ \<Rightarrow> True | _ \<Rightarrow> False)"

definition isMember :: "node \<Rightarrow> bool" where
  "isMember n = (case n of MemberExpression _ _ \<Rightarrow> True | _ \<Rightarrow> False)"

text \<open>
  \<open>String(n)\<close> of a count \<open>n\<close>: its decimal digits. (A count of nodes of a tree is an
  integer far below \<open>2^53\<close>, where \<open>String\<close> prints every digit.)
\<close>

fun digits_of :: "nat \<Rightarrow> string" where
  "digits_of n =
     (if n < 10 then [digit_chars ! n]
      else digits_of (n div 10) @ [digit_chars ! (n mod 10)])"

declare digits_of.simps [simp del]

text \<open>\<open>String(value)\<close> of a literal's value.\<close>

fun js_String :: "lit \<Rightarrow> string" where
  "js_String (LStr s) = s"
| "js_String (LNum t) = t"
| "js_String (LBool b) = (if b then ''true'' else ''false'')"
| "js_String LNull = ''null''"
| "js_String (LOther t) = t"

text \<open>
  The linter visits every node once, parents before children and children in source
  order, and calls a rule's handler for the node's kind with the node; the node's
  \<open>parent\<close> chain is the list of its ancestors, nearest first.
\<close>

fun traverse :: "node list \<Rightarrow> node \<Rightarrow> (node \<times> node list) list" where
  "traverse anc (Identifier x) = [(Identifier x, anc)]"
| "traverse anc (Literal l) = [(Literal l, anc)]"
| "traverse anc (TemplateLiteral qs es) =
     (TemplateLiteral qs es, anc) #
     concat (map (traverse (TemplateLiteral qs es # anc)) es)"
| "traverse anc (CallExpression c as) =
     (CallExpression c as, anc) #
     traverse (CallExpression c as # anc) c @
     concat (map (traverse (CallExpression c as # anc)) as)"
| "traverse anc (MemberExpression ob pr) =
     (MemberExpression ob pr, anc) #
     traverse (MemberExpression ob pr # anc) ob @
     traverse (MemberExpression ob pr # anc) pr"
| "traverse anc (ObjectExpression ps) =
     (ObjectExpression ps, anc) #
     concat (map (traverse (ObjectExpression ps # anc)) ps)"
| "traverse anc (Property k v) =
     (Property k v, anc) #
     traverse (Property k v # anc) k @ traverse (Property k v # anc) v"
| "traverse anc (SpreadElement e) =
     (SpreadElement e, anc) # traverse (SpreadElement e # anc) e"
| "traverse anc (ArrowFunctionExpression ps b) =
     (ArrowFunctionExpression ps b, anc) #
     concat (map (traverse (ArrowFunctionExpression ps b # anc)) ps) @
     traverse (ArrowFunctionExpression ps b # anc) b"
| "traverse anc (FunctionExpression ps b) =
     (FunctionExpression ps b, anc) #
     concat (map (traverse (FunctionExpression ps b # anc)) ps) @
     traverse (FunctionExpression ps b # anc) b"
| "traverse anc (BlockStatement ss) =
     (BlockStatement ss, anc) #
     concat (map (traverse (BlockStatement ss # anc)) ss)"
| "traverse anc (ReturnStatement None) = [(ReturnStatement None, anc)]"
| "traverse anc (ReturnStatement (Some e)) =
     (ReturnStatement (Some e), anc) # traverse (ReturnStatement (Some e) # anc) e"
| "traverse anc (Program ss) =
     (Program ss, anc) # concat (map (traverse (Program ss # anc)) ss)"
| "traverse anc (OtherNode k cs) =
     (OtherNode k cs, anc) # concat (map (traverse (OtherNode k cs # anc)) cs)"

definition visited :: "node \<Rightarrow> node list" where
  "visited prog = map fst (traverse [] prog)"

text \<open>A reported problem: the node, the message id and the message data.\<close>

datatype diag = Diag (d_node: node) (d_msg: string) (d_data: "(string \<times> string) list")

text \<open>Every rule has the same helper \<open>isTableCall\<close>.\<close>

definition tableConstructors :: "string list" where
  "tableConstructors = [''pgTable'', ''mysqlTable'', ''sqliteTable'']"

definition isTableCall :: "node \<Rightarrow> bool" where
  "isTableCall node =
     (case node of
        CallExpression (Identifier name) args \<Rightarrow> name \<in> set tableConstructors
      | _ \<Rightarrow> False)"

text \<open>A fluent chain: \<open>base.m1(args1).m2(args2)...\<close>, segments listed from the receiver outwards.\<close>

fun chain :: "node \<Rightarrow> (string \<times> node list) list \<Rightarrow> node" where
  "chain base [] = base"
| "chain base ((m, args) # segs) =
     chain (CallExpression (MemberExpression base (Identifier m)) args) segs"

section \<open>enforce-snake-case-naming\<close>

text \<open>\<open>/^[a-z][a-z0-9_]*$/\<close>\<close>

definition snakeCasePattern :: rx where
  "snakeCasePattern =
     seqs [Bol, cls lower_chars, Star (cls (lower_chars @ digit_chars @ ''_'')), Eol]"

definition isValidSnakeCase :: "string \<Rightarrow> bool" where
  "isValidSnakeCase name = test snakeCasePattern name"

definition allowedCamelCase :: "string list" where
  "allowedCamelCase = [''createdAt'', ''updatedAt'']"

definition snakeCase_column :: "node \<Rightarrow> diag list" where
  "snakeCase_column prop =
     (case prop of
        Property (Identifier columnName) v \<Rightarrow>
          if \<not> isValidSnakeCase columnName \<and> columnName \<notin> set allowedCamelCase
          then [Diag (Identifier columnName) ''useSnakeCase'' [(''name'', columnName)]]
          else []
      | _ \<Rightarrow> [])"

definition snakeCase_CallExpression :: "node \<Rightarrow> diag list" where
  "snakeCase_CallExpression node =
     (case node of
        CallExpression callee args \<Rightarrow>
          if isTableCall node then
            (case nth_opt args 0 of
               Some (Literal (LStr tableName)) \<Rightarrow>
                 if \<not> isValidSnakeCase tableName
                 then [Diag (Literal (LStr tableName)) ''useSnakeCase'' [(''name'', tableName)]]
                 else []
             | _ \<Rightarrow> [])
            @
            (case nth_opt args 1 of
               Some (ObjectExpression props) \<Rightarrow> concat (map snakeCase_column props)
             | _ \<Rightarrow> [])
          else []
      | _ \<Rightarrow> [])"

definition snakeCaseRule :: "node \<Rightarrow> diag list" where
  "snakeCaseRule prog = concat (map snakeCase_CallExpression (visited prog))"

section \<open>enforce-index-naming\<close>

text \<open>
  \<open>/^(idx|uq|uk)_[a-z][a-z0-9_]*(_[a-z][a-z0-9_]*)*$/\<close>; the rule only calls \<open>test\<close>,
  so the groups only group.
\<close>

definition validPattern :: rx where
  "validPattern =
     seqs [Bol, Alt (lit ''idx'') (Alt (lit ''uq'') (lit ''uk'')), chr CHR ''_'',
           cls lower_chars, Star (cls (lower_chars @ digit_chars @ ''_'')),
           Star (seqs [chr CHR ''_'', cls lower_chars,
                       Star (cls (lower_chars @ digit_chars @ ''_''))]),
           Eol]"

definition indexCallees :: "string list" where
  "indexCallees = [''index'', ''uniqueIndex'', ''unique'']"

text \<open>
  The rule's state is \<open>currentTableName\<close> (\<open>None\<close> for \<open>null\<close>). A string is truthy
  when it is not empty.
\<close>

definition trackTableName :: "string option \<Rightarrow> node \<Rightarrow> string option" where
  "trackTableName currentTableName node =
     (case node of
        CallExpression callee args \<Rightarrow>
          if isTableCall node then
            (case nth_opt args 0 of
               Some (Literal (LStr tableName)) \<Rightarrow> Some tableName
             | _ \<Rightarrow> currentTableName)
          else currentTableName
      | _ \<Rightarrow> currentTableName)"

definition checkIndexName :: "string option \<Rightarrow> node \<Rightarrow> diag list" where
  "checkIndexName currentTableName node =
     (case node of
        CallExpression (Identifier calleeName) args \<Rightarrow>
          if calleeName \<in> set indexCallees then
            (case nth_opt args 0 of
               Some (Literal (LStr indexName)) \<Rightarrow>
                 if \<not> test validPattern indexName
                 then [Diag (Literal (LStr indexName)) ''invalidIndexName'' [(''name'', indexName)]]
                 else
                   (case currentTableName of
                      Some tableName \<Rightarrow>
                        if tableName \<noteq> [] then
                          (let prefix = (if calleeName = ''index'' then ''idx'' else ''uq'');
                               expectedPrefix = prefix @ ''_'' @ tableName @ ''_''
                           in if \<not> startsWith indexName expectedPrefix
                              then [Diag (Literal (LStr indexName)) ''invalidIndexName''
                                      [(''name'', indexName)]]
                              else [])
                        else []
                    | None \<Rightarrow> [])
             | _ \<Rightarrow> [])
          else []
      | _ \<Rightarrow> [])"

definition indexNaming_CallExpression ::
  "string option \<times> diag list \<Rightarrow> node \<Rightarrow> string option \<times> diag list" where
  "indexNaming_CallExpression st node =
     (let currentTableName = trackTableName (fst st) node
      in (currentTableName, snd st @ checkIndexName currentTableName node))"

definition indexNaming_run :: "node list \<Rightarrow> string option \<times> diag list" where
  "indexNaming_run ns = foldl indexNaming_CallExpression (None, []) ns"

definition indexNamingRule :: "node \<Rightarrow> diag list" where
  "indexNamingRule prog = snd (indexNaming_run (visited prog))"

section \<open>require-timestamp-columns\<close>

record timestamp_options =
  checkTables :: "string list option"
  ignoreTables :: "string list option"

definition propertyKeyName :: "node \<Rightarrow> string option" where
  "propertyKeyName prop =
     (case prop of
        Property (Identifier name) v \<Rightarrow> Some name
      | Property (Literal (LStr s)) v \<Rightarrow> Some s
      | _ \<Rightarrow> None)"

definition columnNames :: "node list \<Rightarrow> string list" where
  "columnNames props = List.map_filter propertyKeyName props"

definition hasCreatedAt :: "string list \<Rightarrow> bool" where
  "hasCreatedAt names = list_ex (\<lambda>name. name = ''created_at'' \<or> name = ''createdAt'') names"

definition hasUpdatedAt :: "string list \<Rightarrow> bool" where
  "hasUpdatedAt names = list_ex (\<lambda>name. name = ''updated_at'' \<or> name = ''updatedAt'') names"

definition timestamp_CallExpression :: "timestamp_options \<Rightarrow> node \<Rightarrow> diag list" where
  "timestamp_CallExpression options node =
     (case node of
        CallExpression callee args \<Rightarrow>
          if isTableCall node then
            (case nth_opt args 0 of
               Some (Literal (LStr tableName)) \<Rightarrow>
                 if tableName \<in> set (case ignoreTables options of Some ts \<Rightarrow> ts | None \<Rightarrow> [])
                 then []
                 else if (case checkTables options of
                            Some ts \<Rightarrow> tableName \<notin> set ts | None \<Rightarrow> False)
                 then []
                 else
                   (case nth_opt args 1 of
                      Some (ObjectExpression props) \<Rightarrow>
                        if \<not> hasCreatedAt (columnNames props) \<or> \<not> hasUpdatedAt (columnNames props)
                        then [Diag node ''missingTimestamps'' [(''tableName'', tableName)]]
                        else []
                    | _ \<Rightarrow> [])
             | _ \<Rightarrow> [])
          else []
      | _ \<Rightarrow> [])"

definition timestampColumnsRule :: "timestamp_options \<Rightarrow> node \<Rightarrow> diag list" where
  "timestampColumnsRule options prog =
     concat (map (timestamp_CallExpression options) (visited prog))"

section \<open>enforce-uuid-indexes\<close>

definition isUUIDColumn :: "node \<Rightarrow> bool" where
  "isUUIDColumn node =
     (case node of
        CallExpression (Identifier name) args \<Rightarrow>
          if name = ''uuid'' then True
          else if name \<in> set [''varchar'', ''text'', ''char''] then
            (case nth_opt args 0 of
               Some (Literal l) \<Rightarrow>
                 (let columnName = toLowerCase (js_String l)
                  in str_includes columnName ''uuid'' \<or> endsWith columnName ''_id''
                     \<or> columnName = ''id'')
             | _ \<Rightarrow> False)
          else False
      | _ \<Rightarrow> False)"

fun hasColumnLevelIndex :: "node \<Rightarrow> bool" where
  "hasColumnLevelIndex (CallExpression (MemberExpression ob (Identifier propertyName)) args) =
     (if propertyName \<in> set [''primaryKey'', ''unique''] then True
      else hasColumnLevelIndex ob)"
| "hasColumnLevelIndex (CallExpression (MemberExpression ob pr) args) = hasColumnLevelIndex ob"
| "hasColumnLevelIndex n = False"

definition getColumnName :: "node \<Rightarrow> string option" where
  "getColumnName node =
     (case node of
        CallExpression callee args \<Rightarrow>
          (case nth_opt args 0 of
             Some (Literal l) \<Rightarrow> Some (js_String l)
           | _ \<Rightarrow> None)
      | _ \<Rightarrow> None)"

text \<open>The names an \<open>.on(...)\<close> call adds: each argument that is a member access.\<close>

definition onArgument :: "node \<Rightarrow> string option" where
  "onArgument arg =
     (case arg of MemberExpression ob (Identifier name) \<Rightarrow> Some name | _ \<Rightarrow> None)"

text \<open>The loop of \<open>processIndexObject\<close> on one property value, down the receivers.\<close>

fun findOn :: "node \<Rightarrow> string list" where
  "findOn (CallExpression (MemberExpression ob pr) args) =
     (if pr = Identifier ''on'' then List.map_filter onArgument args else findOn ob)"
| "findOn n = []"

definition processIndexProperty :: "node \<Rightarrow> string list" where
  "processIndexProperty prop =
     (case prop of
        Property k (CallExpression c as) \<Rightarrow> findOn (CallExpression c as)
      | _ \<Rightarrow> [])"

definition processIndexObject :: "node \<Rightarrow> string list" where
  "processIndexObject objectExpr =
     (case objectExpr of
        ObjectExpression props \<Rightarrow> concat (map processIndexProperty props)
      | _ \<Rightarrow> [])"

definition isReturnStatement :: "node \<Rightarrow> bool" where
  "isReturnStatement n = (case n of ReturnStatement _ \<Rightarrow> True | _ \<Rightarrow> False)"

definition extractFromBody :: "node \<Rightarrow> string list" where
  "extractFromBody body =
     (case body of
        BlockStatement stmts \<Rightarrow>
          (case List.find isReturnStatement stmts of
             Some (ReturnStatement (Some (ObjectExpression props))) \<Rightarrow>
               processIndexObject (ObjectExpression props)
           | _ \<Rightarrow> [])
      | ObjectExpression props \<Rightarrow> processIndexObject (ObjectExpression props)
      | _ \<Rightarrow> [])"

definition extractIndexedProperties :: "node \<Rightarrow> string list" where
  "extractIndexedProperties node =
     (case node of
        CallExpression callee args \<Rightarrow>
          (case nth_opt args 2 of
             Some (ArrowFunctionExpression params body) \<Rightarrow> extractFromBody body
           | Some (FunctionExpression params body) \<Rightarrow> extractFromBody body
           | _ \<Rightarrow> [])
      | _ \<Rightarrow> [])"

fun findBaseCall :: "node \<Rightarrow> node" where
  "findBaseCall (CallExpression (MemberExpression (CallExpression c as) pr) args) =
     findBaseCall (CallExpression c as)"
| "findBaseCall n = n"

definition uuidIndex_column :: "string list \<Rightarrow> node \<Rightarrow> diag list" where
  "uuidIndex_column tableIndexedProperties prop =
     (case prop of
        Property (Identifier propertyName) (CallExpression c as) \<Rightarrow>
          (let columnCall = CallExpression c as;
               baseCall = findBaseCall columnCall
           in if isUUIDColumn baseCall then
                (case getColumnName baseCall of
                   Some columnName \<Rightarrow>
                     if columnName \<noteq> [] \<and> \<not> hasColumnLevelIndex columnCall
                        \<and> propertyName \<notin> set tableIndexedProperties
                     then [Diag columnCall ''enforceUUIDIndexes'' [(''columnName'', columnName)]]
                     else []
                 | None \<Rightarrow> [])
              else [])
      | _ \<Rightarrow> [])"

definition uuidIndex_CallExpression :: "node \<Rightarrow> diag list" where
  "uuidIndex_CallExpression node =
     (case node of
        CallExpression callee args \<Rightarrow>
          if isTableCall node then
            (let tableIndexedProperties = extractIndexedProperties node
             in case nth_opt args 1 of
                  Some (ObjectExpression props) \<Rightarrow>
                    concat (map (uuidIndex_column tableIndexedProperties) props)
                | _ \<Rightarrow> [])
          else []
      | _ \<Rightarrow> [])"

definition uuidIndexRule :: "node \<Rightarrow> diag list" where
  "uuidIndexRule prog = concat (map uuidIndex_CallExpression (visited prog))"

section \<open>no-select-star\<close>

definition queryMethods :: "string list" where
  "queryMethods = [''from'', ''where'', ''orderBy'', ''limit'', ''offset'', ''leftJoin'', ''innerJoin'']"

definition calleeProperty :: "node \<Rightarrow> string option" where
  "calleeProperty n =
     (case n of
        CallExpression (MemberExpression ob (Identifier name)) args \<Rightarrow> Some name
      | _ \<Rightarrow> None)"

text \<open>
  The inner loop, on \<open>current\<close> followed by its ancestors: the answer is
  \<open>hasQueryMethod\<close>.
\<close>

fun findQueryMethod :: "node list \<Rightarrow> bool" where
  "findQueryMethod [] = False"
| "findQueryMethod (current # anc) =
     (if isCall current then
        (if (case calleeProperty current of
               Some methodName \<Rightarrow> methodName \<in> set queryMethods | None \<Rightarrow> False)
         then True
         else (case anc of
                 [] \<Rightarrow> False
               | p # rest \<Rightarrow>
                   if isCall p then findQueryMethod (p # rest)
                   else if isMember p then
                     (case rest of
                        [] \<Rightarrow> False
                      | pp # rest' \<Rightarrow> if isCall pp then findQueryMethod (pp # rest') else False)
                   else False))
      else False)"

definition noSelectStar_CallExpression :: "node \<times> node list \<Rightarrow> diag list" where
  "noSelectStar_CallExpression na =
     (case na of
        (CallExpression (MemberExpression ob (Identifier name)) args, anc) \<Rightarrow>
          if name = ''select'' \<and> args = [] then
            (let hasQueryMethod = findQueryMethod (dropWhile isMember anc)
             in if hasQueryMethod
                then [Diag (CallExpression (MemberExpression ob (Identifier name)) args)
                        ''noSelectStar'' []]
                else [])
          else []
      | _ \<Rightarrow> [])"

definition noSelectStarRule :: "node \<Rightarrow> diag list" where
  "noSelectStarRule prog = concat (map noSelectStar_CallExpression (traverse [] prog))"

section \<open>limit-join-complexity\<close>

definition joinMethods :: "string list" where
  "joinMethods = [''leftJoin'', ''innerJoin'', ''rightJoin'', ''fullJoin'']"

definition isJoinCall :: "node \<Rightarrow> bool" where
  "isJoinCall n =
     (case calleeProperty n of Some name \<Rightarrow> name \<in> set joinMethods | None \<Rightarrow> False)"

text \<open>
  The counting loop, on \<open>current\<close> followed by its ancestors (\<open>[]\<close> when \<open>current\<close>
  is undefined); the second argument is \<open>joinCount\<close>.
\<close>

fun countJoins :: "node list \<Rightarrow> nat \<Rightarrow> nat" where
  "countJoins [] joinCount = joinCount"
| "countJoins (current # anc) joinCount =
     (let joinCount' = (if isJoinCall current then joinCount + 1 else joinCount)
      in if isMember current \<and> (case anc of p # _ \<Rightarrow> isCall p | [] \<Rightarrow> False)
         then countJoins anc joinCount'
         else if isCall current then
           (case anc of
              p # pp # rest \<Rightarrow>
                if isMember p \<and> isCall pp then countJoins (pp # rest) joinCount'
                else countJoins anc joinCount'
            | _ \<Rightarrow> countJoins anc joinCount')
         else joinCount')"

text \<open>\<open>options.maxJoins || 3\<close>\<close>

definition maxJoinsOf :: "nat option \<Rightarrow> nat" where
  "maxJoinsOf maxJoins = (case maxJoins of Some n \<Rightarrow> if n = 0 then 3 else n | None \<Rightarrow> 3)"

definition limitJoin_CallExpression :: "nat option \<Rightarrow> node \<times> node list \<Rightarrow> diag list" where
  "limitJoin_CallExpression maxJoins na =
     (case na of
        (node, anc) \<Rightarrow>
          if isJoinCall node then
            (let joinCount = countJoins anc 1
             in if joinCount > maxJoinsOf maxJoins
                then [Diag node ''tooManyJoins''
                        [(''count'', digits_of joinCount), (''max'', digits_of (maxJoinsOf maxJoins))]]
                else [])
          else [])"

definition limitJoinComplexityRule :: "nat option \<Rightarrow> node \<Rightarrow> diag list" where
  "limitJoinComplexityRule maxJoins prog =
     concat (map (limitJoin_CallExpression maxJoins) (traverse [] prog))"

section \<open>require-rls-enabled\<close>

record rls_options =
  sensitiveTables :: "string list option"
  sensitivePatterns :: "string list option"

definition defaultSensitivePatterns :: "string list" where
  "defaultSensitivePatterns =
     [''user'', ''account'', ''profile'', ''payment'', ''order'', ''invoice'', ''medical'',
      ''health'', ''personal'', ''private'', ''auth'', ''session'', ''token'']"

definition sensitiveTablesOf :: "rls_options \<Rightarrow> string list" where
  "sensitiveTablesOf options = (case sensitiveTables options of Some ts \<Rightarrow> ts | None \<Rightarrow> [])"

definition sensitivePatternsOf :: "rls_options \<Rightarrow> string list" where
  "sensitivePatternsOf options =
     (case sensitivePatterns options of Some ps \<Rightarrow> ps | None \<Rightarrow> defaultSensitivePatterns)"

definition isSensitiveTable :: "rls_options \<Rightarrow> string \<Rightarrow> bool" where
  "isSensitiveTable options tableName =
     (let lowerName = toLowerCase tableName
      in if tableName \<in> set (sensitiveTablesOf options) then True
         else list_ex (\<lambda>pattern. str_includes lowerName (toLowerCase pattern))
                      (sensitivePatternsOf options))"

text \<open>
  The rule's state: \<open>tablesFound\<close> is a \<open>Map\<close>, which keeps the order of first
  insertion and replaces the value of a key that is already there; the other two are
  \<open>Set\<close>s, only ever asked for membership.
\<close>

record rls_state =
  tablesFound :: "(string \<times> node) list"
  tablesWithRLS :: "string set"
  tablesWithPolicies :: "string set"

definition rls_init :: rls_state where
  "rls_init = \<lparr>tablesFound = [], tablesWithRLS = {}, tablesWithPolicies = {}\<rparr>"

fun map_set :: "string \<Rightarrow> node \<Rightarrow> (string \<times> node) list \<Rightarrow> (string \<times> node) list" where
  "map_set k v [] = [(k, v)]"
| "map_set k v ((k', v') # m) = (if k' = k then (k, v) # m else (k', v') # map_set k v m)"

definition quote_chars :: string where
  "quote_chars = [CHR 0x22, CHR 0x27]"

text \<open>\<open>/ALTER\s+TABLE\s+["']?(\w+)["']?\s+ENABLE\s+ROW\s+LEVEL\s+SECURITY/i\<close>\<close>

definition rlsPattern :: rx where
  "rlsPattern =
     seqs [lit_i ''ALTER'', rx_plus rx_space, lit_i ''TABLE'', rx_plus rx_space,
           rx_opt (cls quote_chars), Grp (rx_plus rx_word), rx_opt (cls quote_chars),
           rx_plus rx_space, lit_i ''ENABLE'', rx_plus rx_space, lit_i ''ROW'',
           rx_plus rx_space, lit_i ''LEVEL'', rx_plus rx_space, lit_i ''SECURITY'']"

text \<open>\<open>/CREATE\s+POLICY\s+.*?\s+ON\s+["']?(\w+)["']?/i\<close>\<close>

definition policyPattern :: rx where
  "policyPattern =
     seqs [lit_i ''CREATE'', rx_plus rx_space, lit_i ''POLICY'', rx_plus rx_space,
           Lazy rx_dot, rx_plus rx_space, lit_i ''ON'', rx_plus rx_space,
           rx_opt (cls quote_chars), Grp (rx_plus rx_word), rx_opt (cls quote_chars)]"

text \<open>The raw text of a \<open>sql\<close> call on a template literal; \<open>None\<close> for any other node.\<close>

definition sqlContent :: "node \<Rightarrow> string option" where
  "sqlContent node =
     (case node of
        CallExpression (Identifier name) args \<Rightarrow>
          if name = ''sql'' then
            (case nth_opt args 0 of
               Some (TemplateLiteral quasis es) \<Rightarrow> Some (concat quasis)
             | _ \<Rightarrow> None)
          else None
      | _ \<Rightarrow> None)"

text \<open>\<open>m && m[1]\<close>: the captured name when there is a match and it is not empty.\<close>

definition captured :: "rx \<Rightarrow> string \<Rightarrow> string option" where
  "captured r s = (case capture1 r s of Some t \<Rightarrow> if t \<noteq> [] then Some t else None | None \<Rightarrow> None)"

definition trackTable :: "rls_state \<Rightarrow> node \<Rightarrow> rls_state" where
  "trackTable st node =
     (case node of
        CallExpression callee args \<Rightarrow>
          if isTableCall node then
            (case nth_opt args 0 of
               Some (Literal (LStr tableName)) \<Rightarrow>
                 st\<lparr>tablesFound := map_set tableName node (tablesFound st)\<rparr>
             | _ \<Rightarrow> st)
          else st
      | _ \<Rightarrow> st)"

definition trackSql :: "rls_state \<Rightarrow> node \<Rightarrow> rls_state" where
  "trackSql st node =
     (case sqlContent node of
        Some content \<Rightarrow>
          (let st1 = (case captured rlsPattern content of
                        Some t \<Rightarrow> st\<lparr>tablesWithRLS := insert t (tablesWithRLS st)\<rparr>
                      | None \<Rightarrow> st)
           in case captured policyPattern content of
                Some t \<Rightarrow> st1\<lparr>tablesWithPolicies := insert t (tablesWithPolicies st1)\<rparr>
              | None \<Rightarrow> st1)
      | None \<Rightarrow> st)"

definition rls_CallExpression :: "rls_state \<Rightarrow> node \<Rightarrow> rls_state" where
  "rls_CallExpression st node = trackSql (trackTable st node) node"

definition rls_checkTable :: "rls_options \<Rightarrow> rls_state \<Rightarrow> string \<times> node \<Rightarrow> diag list" where
  "rls_checkTable options st entry =
     (case entry of
        (tableName, node) \<Rightarrow>
          if isSensitiveTable options tableName then
            (if tableName \<notin> tablesWithRLS st
             then [Diag node ''missingRLS'' [(''table'', tableName)]]
             else if tableName \<notin> tablesWithPolicies st
             then [Diag node ''missingPolicy'' [(''table'', tableName)]]
             else [])
          else [])"

definition rls_ProgramExit :: "rls_options \<Rightarrow> rls_state \<Rightarrow> diag list" where
  "rls_ProgramExit options st = concat (map (rls_checkTable options st) (tablesFound st))"

text \<open>The handler runs on every node in visiting order, then the exit hook runs.\<close>

definition rls_collect :: "node list \<Rightarrow> rls_state" where
  "rls_collect ns = foldl rls_CallExpression rls_init ns"

definition requireRLSRule :: "rls_options \<Rightarrow> node \<Rightarrow> diag list" where
  "requireRLSRule options prog = rls_ProgramExit options (rls_collect (visited prog))"

section \<open>prevent-rls-bypass\<close>

definition validBypassReasons :: "rx list" where
  "validBypassReasons =
     [seqs [lit_i ''RLS'', rx_plus rx_space, lit_i ''bypass''],
      lit_i ''security'',
      lit_i ''admin'',
      seqs [lit_i ''service'', rx_plus rx_space, lit_i ''role''],
      seqs [lit_i ''system'', rx_plus rx_space, lit_i ''operation''],
      lit_i ''migration'',
      seqs [lit_i ''background'', rx_plus rx_space, lit_i ''job''],
      lit_i ''cron'']"

text \<open>
  \<open>comments\<close> is what \<open>sourceCode.getCommentsBefore(node)\<close> returns: the text of the
  comments that stand immediately before the node.
\<close>

definition hasValidBypassComment :: "string list \<Rightarrow> bool" where
  "hasValidBypassComment comments =
     list_ex (\<lambda>comment. list_ex (\<lambda>pattern. test pattern comment) validBypassReasons) comments"

definition bypassIndicators :: "string list" where
  "bypassIndicators = [''serviceRole'', ''adminClient'', ''serviceClient'', ''bypassRLS'']"

definition isRlsBypassAccess :: "node \<Rightarrow> bool" where
  "isRlsBypassAccess node =
     (case node of
        MemberExpression (CallExpression (MemberExpression ob (Identifier m)) args)
                         (Identifier name) \<Rightarrow> name = ''bypass'' \<and> m = ''rls''
      | _ \<Rightarrow> False)"

definition bypass_MemberExpression :: "string list \<Rightarrow> node \<Rightarrow> diag list" where
  "bypass_MemberExpression comments node =
     (if isRlsBypassAccess node \<and> \<not> hasValidBypassComment comments
      then [Diag node ''missingRLSComment'' []]
      else [])
     @
     (case node of
        MemberExpression ob (Identifier name) \<Rightarrow>
          if name \<in> set bypassIndicators
          then [Diag node ''bypassDetected'' [(''method'', name)]]
          else []
      | _ \<Rightarrow> [])"

section \<open>Notions of the specification\<close>

text \<open>
  The table name a call declares: the string-literal first argument of a call to one
  of the table constructors.
\<close>

definition tableNameOf :: "node \<Rightarrow> string option" where
  "tableNameOf node =
     (case node of
        CallExpression (Identifier name) args \<Rightarrow>
          if name \<in> set tableConstructors then
            (case nth_opt args 0 of
               Some (Literal (LStr tableName)) \<Rightarrow> Some tableName
             | _ \<Rightarrow> None)
          else None
      | _ \<Rightarrow> None)"

text \<open>The name of the table declaration seen last among the nodes visited so far.\<close>

definition lastTableName :: "node list \<Rightarrow> string option" where
  "lastTableName ns =
     (let names = List.map_filter tableNameOf ns
      in if names = [] then None else Some (last names))"

text \<open>
  What the finalize check of the access-control rule is said to work on: the table
  declarations of the unit (name and declaring call), the names captured from its
  enable-row-security statements and from its create-policy statements, the declared
  names in order of first declaration, and the verdict for one name.
\<close>

definition tableDeclaration :: "node \<Rightarrow> (string \<times> node) option" where
  "tableDeclaration node = (case tableNameOf node of Some t \<Rightarrow> Some (t, node) | None \<Rightarrow> None)"

definition declaredTables :: "node list \<Rightarrow> (string \<times> node) list" where
  "declaredTables ns = List.map_filter tableDeclaration ns"

definition rlsName :: "node \<Rightarrow> string option" where
  "rlsName node = (case sqlContent node of Some content \<Rightarrow> captured rlsPattern content | None \<Rightarrow> None)"

definition policyName :: "node \<Rightarrow> string option" where
  "policyName node = (case sqlContent node of Some content \<Rightarrow> captured policyPattern content | None \<Rightarrow> None)"

definition rlsNames :: "node list \<Rightarrow> string list" where
  "rlsNames ns = List.map_filter rlsName ns"

definition policyNames :: "node list \<Rightarrow> string list" where
  "policyNames ns = List.map_filter policyName ns"

definition declaredOrder :: "node list \<Rightarrow> string list" where
  "declaredOrder ns = rev (remdups (rev (map fst (declaredTables ns))))"

definition lastDeclaration :: "node list \<Rightarrow> string \<Rightarrow> node option" where
  "lastDeclaration ns t = map_of (rev (declaredTables ns)) t"

definition rls_verdict :: "rls_options \<Rightarrow> node list \<Rightarrow> string \<Rightarrow> diag list" where
  "rls_verdict options ns t =
     (case lastDeclaration ns t of
        None \<Rightarrow> []
      | Some node \<Rightarrow>
          if t \<in> set (sensitiveTablesOf options) \<or>
             list_ex (\<lambda>pattern. str_includes (toLowerCase t) (toLowerCase pattern))
                     (sensitivePatternsOf options)
          then (if t \<notin> set (rlsNames ns)
                then [Diag node ''missingRLS'' [(''table'', t)]]
                else if t \<notin> set (policyNames ns)
                then [Diag node ''missingPolicy'' [(''table'', t)]]
                else [])
          else [])"

text \<open>The nodes of a tree in visiting order.\<close>

fun preorder :: "node \<Rightarrow> node list" where
  "preorder (Identifier x) = [Identifier x]"
| "preorder (Literal l) = [Literal l]"
| "preorder (TemplateLiteral qs es) = TemplateLiteral qs es # concat (map preorder es)"
| "preorder (CallExpression c as) =
     CallExpression c as # preorder c @ concat (map preorder as)"
| "preorder (MemberExpression ob pr) = MemberExpression ob pr # preorder ob @ preorder pr"
| "preorder (ObjectExpression ps) = ObjectExpression ps # concat (map preorder ps)"
| "preorder (Property k v) = Property k v # preorder k @ preorder v"
| "preorder (SpreadElement e) = SpreadElement e # preorder e"
| "preorder (ArrowFunctionExpression ps b) =
     ArrowFunctionExpression ps b # concat (map preorder ps) @ preorder b"
| "preorder (FunctionExpression ps b) =
     FunctionExpression ps b # concat (map preorder ps) @ preorder b"
| "preorder (BlockStatement ss) = BlockStatement ss # concat (map preorder ss)"
| "preorder (ReturnStatement None) = [ReturnStatement None]"
| "preorder (ReturnStatement (Some e)) = ReturnStatement (Some e) # preorder e"
| "preorder (Program ss) = Program ss # concat (map preorder ss)"
| "preorder (OtherNode k cs) = OtherNode k cs # concat (map preorder cs)"

text \<open>
  The ancestors of the receiver \<open>b\<close> inside the chain \<open>chain b segs\<close>, nearest first,
  when the chain itself has the ancestors \<open>ctx\<close>; and a context whose nearest node is
  neither a call nor a member access (a statement, a declarator, \<open>await\<close> ...).
\<close>

fun chain_ancestors :: "node \<Rightarrow> (string \<times> node list) list \<Rightarrow> node list \<Rightarrow> node list" where
  "chain_ancestors b [] ctx = ctx"
| "chain_ancestors b ((m, args) # segs) ctx =
     MemberExpression b (Identifier m) #
     CallExpression (MemberExpression b (Identifier m)) args #
     chain_ancestors (CallExpression (MemberExpression b (Identifier m)) args) segs ctx"

definition statement_level :: "node list \<Rightarrow> bool" where
  "statement_level ctx = (case ctx of [] \<Rightarrow> True | t # _ \<Rightarrow> \<not> isCall t \<and> \<not> isMember t)"

section \<open>Properties\<close>

subsection \<open>Traversal of fluent chains\<close>

lemma traverse_self: "(n, anc) \<in> set (traverse anc n)"
proof (cases n)
  case (ReturnStatement x)
  then show ?thesis by (cases x) simp_all
qed simp_all

lemma traverse_descend:
  "(n, anc) \<in> set (traverse ctx root) \<Longrightarrow> set (traverse anc n) \<subseteq> set (traverse ctx root)"
proof (induction root arbitrary: ctx)
  case (ReturnStatement x)
  then show ?case by (cases x) auto
qed (fastforce)+

lemma traverse_chain:
  "(b, chain_ancestors b segs ctx) \<in> set (traverse ctx (chain b segs))"
proof (induction segs arbitrary: b)
  case Nil
  show ?case by (simp add: traverse_self)
next
  case (Cons s segs)
  obtain m args where s: "s = (m, args)" by (cases s)
  let ?call = "CallExpression (MemberExpression b (Identifier m)) args"
  let ?anc = "chain_ancestors ?call segs ctx"
  have "(?call, ?anc) \<in> set (traverse ctx (chain ?call segs))"
    by (rule Cons.IH)
  then have "set (traverse ?anc ?call) \<subseteq> set (traverse ctx (chain ?call segs))"
    by (rule traverse_descend)
  moreover have "(b, MemberExpression b (Identifier m) # ?call # ?anc) \<in> set (traverse ?anc ?call)"
    using traverse_self [of b "MemberExpression b (Identifier m) # ?call # ?anc"] by simp
  ultimately show ?case
    by (auto simp: s)
qed

subsection \<open>Join counting\<close>

text \<open>
  What the counting loop computes for a join segment of a chain that stands at
  statement level: one for the segment itself plus the join segments that wrap it.
  The segments of its receiver are never counted.
\<close>

lemma countJoins_call_in_chain:
  assumes "statement_level ctx"
  shows "countJoins (CallExpression c as # chain_ancestors (CallExpression c as) segs ctx) n
         = n + (if isJoinCall (CallExpression c as) then 1 else 0)
             + length (filter (\<lambda>s. fst s \<in> set joinMethods) segs)"
proof (induction segs arbitrary: c as n)
  case Nil
  show ?case
    using assms
    by (cases ctx) (auto simp: statement_level_def isCall_def isMember_def Let_def isJoinCall_def
        calleeProperty_def split: list.splits node.splits)
next
  case (Cons s segs)
  obtain m args where s: "s = (m, args)" by (cases s)
  have j: "isJoinCall (CallExpression (MemberExpression (CallExpression c as) (Identifier m)) args)
           = (m \<in> set joinMethods)"
    by (simp add: isJoinCall_def calleeProperty_def)
  have "countJoins (CallExpression c as # chain_ancestors (CallExpression c as) (s # segs) ctx) n
        = countJoins (CallExpression (MemberExpression (CallExpression c as) (Identifier m)) args
                      # chain_ancestors
                          (CallExpression (MemberExpression (CallExpression c as) (Identifier m)) args)
                          segs ctx)
                     (n + (if isJoinCall (CallExpression c as) then 1 else 0))"
    by (subst countJoins.simps(2))
       (simp add: s isCall_def isMember_def Let_def del: countJoins.simps)
  then show ?case
    by (simp add: s Cons.IH j del: countJoins.simps)
qed

lemma countJoins_outer_joins_only:
  assumes "statement_level ctx"
  shows "countJoins (chain_ancestors (CallExpression c as) outer ctx) 1
         = 1 + length (filter (\<lambda>s. fst s \<in> set joinMethods) outer)"
proof (cases outer)
  case Nil
  then show ?thesis
    using assms
    by (cases ctx) (auto simp: statement_level_def isCall_def isMember_def Let_def isJoinCall_def
        calleeProperty_def split: list.splits node.splits)
next
  case (Cons s segs)
  obtain m args where s: "s = (m, args)" by (cases s)
  have j: "isJoinCall (CallExpression (MemberExpression (CallExpression c as) (Identifier m)) args)
           = (m \<in> set joinMethods)"
    by (simp add: isJoinCall_def calleeProperty_def)
  have nj: "\<not> isJoinCall (MemberExpression (CallExpression c as) (Identifier m))"
    by (simp add: isJoinCall_def calleeProperty_def)
  have "countJoins (chain_ancestors (CallExpression c as) outer ctx) 1
        = countJoins (CallExpression (MemberExpression (CallExpression c as) (Identifier m)) args
                      # chain_ancestors
                          (CallExpression (MemberExpression (CallExpression c as) (Identifier m)) args)
                          segs ctx) 1"
    by (simp only: Cons s chain_ancestors.simps)
       (subst countJoins.simps(2), simp add: nj isCall_def isMember_def Let_def del: countJoins.simps)
  then show ?thesis
    using countJoins_call_in_chain [OF assms, of "MemberExpression (CallExpression c as) (Identifier m)" args segs 1]
    by (simp add: Cons s j del: countJoins.simps)
qed

lemma limitJoin_reports_outer_joins:
  assumes "statement_level ctx" and "m \<in> set joinMethods"
  shows "limitJoin_CallExpression maxJoins
           (CallExpression (MemberExpression r (Identifier m)) args,
            chain_ancestors (CallExpression (MemberExpression r (Identifier m)) args) outer ctx)
         = (if 1 + length (filter (\<lambda>s. fst s \<in> set joinMethods) outer) > maxJoinsOf maxJoins
            then [Diag (CallExpression (MemberExpression r (Identifier m)) args) ''tooManyJoins''
                    [(''count'', digits_of (1 + length (filter (\<lambda>s. fst s \<in> set joinMethods) outer))),
                     (''max'', digits_of (maxJoinsOf maxJoins))]]
            else [])"
proof -
  have "isJoinCall (CallExpression (MemberExpression r (Identifier m)) args)"
    using assms(2) by (simp add: isJoinCall_def calleeProperty_def)
  then show ?thesis
    using countJoins_outer_joins_only [OF assms(1), of "MemberExpression r (Identifier m)" args outer]
    by (simp add: limitJoin_CallExpression_def Let_def del: countJoins.simps)
qed

text \<open>
  C1. The join-complexity check is meant to report the number of joins of the whole
  chain, once per chain. The counting loop only follows \<open>parent\<close> links, so a join
  segment counts itself and the joins that wrap it, never the joins of its receiver.
  On \<open>db.select().from(orders).leftJoin(a).innerJoin(b).rightJoin(c).fullJoin(d).leftJoin(e)\<close>
  with a maximum of 3 the rule reports twice: count 4 at the second join and count 5
  at the first one (the outer calls are visited first).
\<close>

theorem limitJoin_five_joins_two_reports:
  "map d_data (limitJoinComplexityRule (Some 3)
     (Program [OtherNode ''ExpressionStatement''
        [chain (Identifier ''db'')
           [(''select'', []), (''from'', [Identifier ''orders'']),
            (''leftJoin'', [Identifier ''a'']), (''innerJoin'', [Identifier ''b'']),
            (''rightJoin'', [Identifier ''c'']), (''fullJoin'', [Identifier ''d'']),
            (''leftJoin'', [Identifier ''e''])]]]))
   = [[(''count'', ''4''), (''max'', ''3'')], [(''count'', ''5''), (''max'', ''3'')]]"
  by code_simp

subsection \<open>Bypass indicators and justification comments\<close>

text \<open>The indicator branch reports whatever comments precede the node.\<close>

lemma bypass_indicator_ignores_comments:
  assumes "name \<in> set bypassIndicators"
  shows "Diag (MemberExpression ob (Identifier name)) ''bypassDetected'' [(''method'', name)]
         \<in> set (bypass_MemberExpression comments (MemberExpression ob (Identifier name)))"
  using assms by (simp add: bypass_MemberExpression_def)

text \<open>
  C2. A bypass-indicator property access preceded by a comment containing
  ``migration'' should not be reported. The handler consults the comments only for
  the \<open>.rls().bypass()\<close> shape; the indicator branch reports whatever the comments
  say: \<open>supabase.serviceRole\<close> under the comment ``Migration: backfill of the new
  column'', which the justification matcher accepts, is still reported.
\<close>

theorem bypass_indicator_reported_despite_comment:
  "hasValidBypassComment ['' Migration: backfill of the new column''] \<and>
   bypass_MemberExpression ['' Migration: backfill of the new column'']
     (MemberExpression (Identifier ''supabase'') (Identifier ''serviceRole''))
   = [Diag (MemberExpression (Identifier ''supabase'') (Identifier ''serviceRole''))
        ''bypassDetected'' [(''method'', ''serviceRole'')]]"
  by code_simp

subsection \<open>Select star and the query-context verbs\<close>

text \<open>
  For a chain at statement level, a bare \<open>select()\<close> is reported exactly when a segment
  that wraps it has a verb of the rule's list.
\<close>

lemma findQueryMethod_call_in_chain:
  assumes "statement_level ctx"
  shows "findQueryMethod (CallExpression c as # chain_ancestors (CallExpression c as) segs ctx)
         = ((case calleeProperty (CallExpression c as) of
               Some methodName \<Rightarrow> methodName \<in> set queryMethods | None \<Rightarrow> False)
            \<or> list_ex (\<lambda>s. fst s \<in> set queryMethods) segs)"
proof (induction segs arbitrary: c as)
  case Nil
  show ?case
    using assms
    by (cases ctx) (auto simp: statement_level_def isCall_def isMember_def split: list.splits)
next
  case (Cons s segs)
  obtain m args where s: "s = (m, args)" by (cases s)
  let ?next = "CallExpression (MemberExpression (CallExpression c as) (Identifier m)) args"
  have "findQueryMethod (CallExpression c as # chain_ancestors (CallExpression c as) (s # segs) ctx)
        = ((case calleeProperty (CallExpression c as) of
               Some methodName \<Rightarrow> methodName \<in> set queryMethods | None \<Rightarrow> False)
           \<or> findQueryMethod (?next # chain_ancestors ?next segs ctx))"
    by (subst findQueryMethod.simps(2))
       (simp add: s isCall_def isMember_def del: findQueryMethod.simps)
  then show ?case
    by (simp add: s Cons.IH calleeProperty_def del: findQueryMethod.simps)
qed

lemma noSelectStar_in_chain:
  assumes "statement_level ctx"
  shows "noSelectStar_CallExpression
           (CallExpression (MemberExpression r (Identifier ''select'')) [],
            chain_ancestors (CallExpression (MemberExpression r (Identifier ''select'')) []) outer ctx)
         = (if list_ex (\<lambda>s. fst s \<in> set queryMethods) outer
            then [Diag (CallExpression (MemberExpression r (Identifier ''select'')) [])
                    ''noSelectStar'' []]
            else [])"
proof (cases outer)
  case Nil
  then show ?thesis
    using assms
    by (cases ctx) (auto simp: noSelectStar_CallExpression_def statement_level_def isCall_def)
next
  case (Cons s segs)
  obtain m args where s: "s = (m, args)" by (cases s)
  let ?sel = "CallExpression (MemberExpression r (Identifier ''select'')) []"
  let ?next = "CallExpression (MemberExpression ?sel (Identifier m)) args"
  have "dropWhile isMember (chain_ancestors ?sel outer ctx) = ?next # chain_ancestors ?next segs ctx"
    by (simp add: Cons s isMember_def)
  then show ?thesis
    using findQueryMethod_call_in_chain [OF assms, of "MemberExpression ?sel (Identifier m)" args segs]
    by (simp add: noSelectStar_CallExpression_def Let_def Cons s calleeProperty_def
        del: findQueryMethod.simps)
qed

text \<open>
  C4. A bare \<open>.select()\<close> should be reported when its chain has any query-context verb,
  the four join verbs included. The list in the rule has \<open>leftJoin\<close> and \<open>innerJoin\<close>
  only: \<open>db.select().rightJoin(orders)\<close> and \<open>db.select().fullJoin(orders)\<close> are not
  reported, while \<open>db.select().leftJoin(orders)\<close> is.
\<close>

theorem select_star_right_join_not_reported:
  "noSelectStarRule (Program [OtherNode ''ExpressionStatement''
      [chain (Identifier ''db'') [(''select'', []), (''rightJoin'', [Identifier ''orders''])]]]) = []
   \<and> noSelectStarRule (Program [OtherNode ''ExpressionStatement''
      [chain (Identifier ''db'') [(''select'', []), (''fullJoin'', [Identifier ''orders''])]]]) = []
   \<and> noSelectStarRule (Program [OtherNode ''ExpressionStatement''
      [chain (Identifier ''db'') [(''select'', []), (''leftJoin'', [Identifier ''orders''])]]])
     = [Diag (CallExpression (MemberExpression (Identifier ''db'') (Identifier ''select'')) [])
          ''noSelectStar'' []]"
  by code_simp

subsection \<open>Snake case: declared name and property key\<close>

text \<open>The verdict on a column depends on its key only, not on its value.\<close>

lemma snakeCase_column_key_only:
  "snakeCase_column (Property key v) = snakeCase_column (Property key v')"
  by (simp add: snakeCase_column_def split: node.splits)

text \<open>
  C7. The snake-case check should judge a column by its declared name. The rule reads
  the property key instead: \<open>userId: uuid('user_id')\<close> is reported, with the key
  \<open>userId\<close>, although the declared name \<open>user_id\<close> is valid, and
  \<open>user_id: uuid('userId')\<close> is not reported although its declared name is invalid.
\<close>

theorem snake_case_checks_property_key:
  "isValidSnakeCase ''user_id'' \<and>
   snakeCaseRule (Program [CallExpression (Identifier ''pgTable'')
      [Literal (LStr ''users''),
       ObjectExpression [Property (Identifier ''userId'')
          (CallExpression (Identifier ''uuid'') [Literal (LStr ''user_id'')])]]])
   = [Diag (Identifier ''userId'') ''useSnakeCase'' [(''name'', ''userId'')]]
   \<and> \<not> isValidSnakeCase ''userId'' \<and>
   snakeCaseRule (Program [CallExpression (Identifier ''pgTable'')
      [Literal (LStr ''users''),
       ObjectExpression [Property (Identifier ''user_id'')
          (CallExpression (Identifier ''uuid'') [Literal (LStr ''userId'')])]]])
   = []"
  by code_simp


subsection \<open>Index naming: the two gates\<close>

lemma trackTableName_tableNameOf:
  "trackTableName cur node = (case tableNameOf node of Some t \<Rightarrow> Some t | None \<Rightarrow> cur)"
  by (simp add: trackTableName_def tableNameOf_def isTableCall_def
           split: node.splits option.splits lit.splits)

lemma indexNaming_run_snoc:
  "indexNaming_run (ns @ [n]) = indexNaming_CallExpression (indexNaming_run ns) n"
  by (simp add: indexNaming_run_def)

lemma lastTableName_snoc:
  "lastTableName (ns @ [n]) = (case tableNameOf n of Some t \<Rightarrow> Some t | None \<Rightarrow> lastTableName ns)"
  by (cases "tableNameOf n") (simp_all add: lastTableName_def List.map_filter_def)

text \<open>The rule's state is the name of the last table declaration visited.\<close>

lemma indexNaming_run_state: "fst (indexNaming_run ns) = lastTableName ns"
proof (induction ns rule: rev_induct)
  case Nil
  show ?case by (simp add: indexNaming_run_def lastTableName_def List.map_filter_def)
next
  case (snoc n ns)
  then show ?case
    by (simp add: indexNaming_run_snoc indexNaming_CallExpression_def Let_def
        trackTableName_tableNameOf lastTableName_snoc)
qed

lemma index_call_no_table:
  "calleeName \<in> set indexCallees \<Longrightarrow> tableNameOf (CallExpression (Identifier calleeName) args) = None"
  by (auto simp: indexCallees_def tableNameOf_def tableConstructors_def)

text \<open>
  C8, as stated: once a table declaration has been seen, an index name of the generic
  shape is reported when it does not start with \<open>idx_<tablename>_\<close>. After
  \<open>pgTable('')\<close> the tracked name is the empty string, which the rule's test
  \<open>else if (currentTableName)\<close> takes for ``no table'': \<open>index('idx_foo')\<close> has the
  generic shape, does not start with \<open>idx__\<close>, and is not reported.
\<close>

theorem index_naming_empty_table_counterexample:
  "snd (indexNaming_run
      [CallExpression (Identifier ''pgTable'') [Literal (LStr [])],
       CallExpression (Identifier ''index'') [Literal (LStr ''idx_foo'')]]) = []
   \<and> test validPattern ''idx_foo''
   \<and> \<not> startsWith ''idx_foo'' (''idx'' @ ''_'' @ [] @ ''_'')"
  by code_simp

text \<open>
  C8, amended. For an \<open>index\<close>, \<open>uniqueIndex\<close> or \<open>unique\<close> call whose first argument is
  a string literal, visited after the nodes \<open>ns\<close>, the rule adds exactly this: one
  diagnostic when the name does not match the generic shape; otherwise, when the last
  table declaration seen has a non-empty name, one diagnostic when the name does not
  start with \<open>idx_<tablename>_\<close> (for \<open>index\<close>) or \<open>uq_<tablename>_\<close> (for the other
  two); otherwise nothing. Both gates use the same message.
\<close>

theorem index_naming_two_gates:
  assumes "calleeName \<in> set indexCallees"
  shows "snd (indexNaming_run
            (ns @ [CallExpression (Identifier calleeName) (Literal (LStr indexName) # rest)]))
         = snd (indexNaming_run ns) @
           (if \<not> test validPattern indexName
            then [Diag (Literal (LStr indexName)) ''invalidIndexName'' [(''name'', indexName)]]
            else case lastTableName ns of
                   None \<Rightarrow> []
                 | Some tableName \<Rightarrow>
                     if tableName \<noteq> [] \<and>
                        \<not> startsWith indexName
                            ((if calleeName = ''index'' then ''idx'' else ''uq'')
                             @ ''_'' @ tableName @ ''_'')
                     then [Diag (Literal (LStr indexName)) ''invalidIndexName''
                             [(''name'', indexName)]]
                     else [])"
proof -
  let ?n = "CallExpression (Identifier calleeName) (Literal (LStr indexName) # rest)"
  have cur: "trackTableName (fst (indexNaming_run ns)) ?n = lastTableName ns"
    using assms by (simp add: trackTableName_tableNameOf index_call_no_table indexNaming_run_state)
  show ?thesis
    using assms
    by (simp add: indexNaming_run_snoc indexNaming_CallExpression_def cur checkIndexName_def
        Let_def split: option.splits)
qed

theorem index_naming_two_gates_witness:
  "snd (indexNaming_run
      [CallExpression (Identifier ''pgTable'') [Literal (LStr ''users'')],
       CallExpression (Identifier ''uniqueIndex'') [Literal (LStr ''idx_users_email'')]])
   = [Diag (Literal (LStr ''idx_users_email'')) ''invalidIndexName''
        [(''name'', ''idx_users_email'')]]
   \<and> test validPattern ''idx_users_email''
   \<and> lastTableName [CallExpression (Identifier ''pgTable'') [Literal (LStr ''users'')]]
       = Some ''users''"
proof -
  have v: "test validPattern ''idx_users_email''" by code_simp
  have l: "lastTableName [CallExpression (Identifier ''pgTable'') [Literal (LStr ''users'')]]
       = Some ''users''" by code_simp
  have e: "snd (indexNaming_run [CallExpression (Identifier ''pgTable'') [Literal (LStr ''users'')]]) = []"
    by code_simp
  have c: "''uniqueIndex'' \<in> set indexCallees" by (simp add: indexCallees_def)
  show ?thesis
    using index_naming_two_gates [OF c,
        of "[CallExpression (Identifier ''pgTable'') [Literal (LStr ''users'')]]"
           "''idx_users_email''" "[]"] v l e
    by simp
qed

subsection \<open>Timestamp columns: skipped occasions and the verdict\<close>

lemma isTableCall_constructor:
  "isTableCall (CallExpression (Identifier ctor) args) = (ctor \<in> set tableConstructors)"
  by (simp add: isTableCall_def)

lemma hasCreatedAt_iff:
  "hasCreatedAt names = (''created_at'' \<in> set names \<or> ''createdAt'' \<in> set names)"
  by (auto simp: hasCreatedAt_def list_ex_iff)

lemma hasUpdatedAt_iff:
  "hasUpdatedAt names = (''updated_at'' \<in> set names \<or> ''updatedAt'' \<in> set names)"
  by (auto simp: hasUpdatedAt_def list_ex_iff)

lemma timestamp_skip:
  assumes "ctor \<in> set tableConstructors"
    and "\<forall>props. nth_opt args 1 \<noteq> Some (ObjectExpression props)"
  shows "timestamp_CallExpression options (CallExpression (Identifier ctor) args) = []"
  using assms
  by (auto simp: timestamp_CallExpression_def isTableCall_constructor
           split: option.splits node.splits lit.splits)

lemma timestamp_checked:
  assumes "ctor \<in> set tableConstructors"
    and "tableName \<notin> set (case ignoreTables options of Some ts \<Rightarrow> ts | None \<Rightarrow> [])"
    and "case checkTables options of Some ts \<Rightarrow> tableName \<in> set ts | None \<Rightarrow> True"
  shows "timestamp_CallExpression options
           (CallExpression (Identifier ctor) (Literal (LStr tableName) # ObjectExpression props # rest))
         = (if (''created_at'' \<notin> set (columnNames props) \<and> ''createdAt'' \<notin> set (columnNames props))
               \<or> (''updated_at'' \<notin> set (columnNames props) \<and> ''updatedAt'' \<notin> set (columnNames props))
            then [Diag (CallExpression (Identifier ctor)
                          (Literal (LStr tableName) # ObjectExpression props # rest))
                    ''missingTimestamps'' [(''tableName'', tableName)]]
            else [])"
  using assms
  by (auto simp: timestamp_CallExpression_def isTableCall_constructor hasCreatedAt_iff
        hasUpdatedAt_iff split: option.splits)

text \<open>
  C9, as stated: whenever the columns object literal is present, a diagnostic is emitted
  iff a timestamp key is missing. The rule first returns for a table named in
  \<open>ignoreTables\<close> (and for one outside a configured \<open>checkTables\<close>): with
  \<open>ignoreTables = ['logs']\<close>, \<open>pgTable('logs', { id: serial('id') })\<close> has neither
  key and gets no diagnostic.
\<close>

theorem timestamp_ignored_table_counterexample:
  "timestamp_CallExpression \<lparr>checkTables = None, ignoreTables = Some [''logs'']\<rparr>
      (CallExpression (Identifier ''pgTable'')
         [Literal (LStr ''logs''),
          ObjectExpression [Property (Identifier ''id'')
                              (CallExpression (Identifier ''serial'') [Literal (LStr ''id'')])]])
   = []
   \<and> columnNames [Property (Identifier ''id'')
                    (CallExpression (Identifier ''serial'') [Literal (LStr ''id'')])] = [''id'']"
  by code_simp

text \<open>
  C9, amended. For a table-declaration call: when the second argument is absent or is
  not an object literal, the handler emits nothing for it and the diagnostics of the
  nodes visited before and after it are those they would be without it; when the first
  argument is a string literal naming a table that is not in \<open>ignoreTables\<close> and, if
  \<open>checkTables\<close> is configured, is in \<open>checkTables\<close>, and the second argument is an
  object literal, one diagnostic is emitted iff the keys lack both \<open>created_at\<close> and
  \<open>createdAt\<close> or lack both \<open>updated_at\<close> and \<open>updatedAt\<close>.
\<close>

theorem timestamp_columns_gates:
  assumes "ctor \<in> set tableConstructors"
  shows "((\<forall>props. nth_opt args 1 \<noteq> Some (ObjectExpression props)) \<longrightarrow>
            timestamp_CallExpression options (CallExpression (Identifier ctor) args) = [] \<and>
            concat (map (timestamp_CallExpression options)
                        (before @ [CallExpression (Identifier ctor) args] @ after))
            = concat (map (timestamp_CallExpression options) before)
              @ concat (map (timestamp_CallExpression options) after))
         \<and>
         (tableName \<notin> set (case ignoreTables options of Some ts \<Rightarrow> ts | None \<Rightarrow> []) \<and>
          (case checkTables options of Some ts \<Rightarrow> tableName \<in> set ts | None \<Rightarrow> True) \<longrightarrow>
            timestamp_CallExpression options
              (CallExpression (Identifier ctor)
                 (Literal (LStr tableName) # ObjectExpression props # rest))
            = (if (''created_at'' \<notin> set (columnNames props) \<and>
                   ''createdAt'' \<notin> set (columnNames props))
                  \<or> (''updated_at'' \<notin> set (columnNames props) \<and>
                      ''updatedAt'' \<notin> set (columnNames props))
               then [Diag (CallExpression (Identifier ctor)
                             (Literal (LStr tableName) # ObjectExpression props # rest))
                       ''missingTimestamps'' [(''tableName'', tableName)]]
               else []))"
  using assms timestamp_skip [of ctor args options]
    timestamp_checked [of ctor tableName options props rest]
  by simp

theorem timestamp_columns_gates_witness:
  "timestamp_CallExpression \<lparr>checkTables = None, ignoreTables = None\<rparr>
      (CallExpression (Identifier ''pgTable'') [Literal (LStr ''users'')]) = []
   \<and> timestamp_CallExpression \<lparr>checkTables = None, ignoreTables = None\<rparr>
       (CallExpression (Identifier ''pgTable'')
          [Literal (LStr ''users''),
           ObjectExpression [Property (Identifier ''created_at'')
                               (CallExpression (Identifier ''timestamp'') [])]])
     = [Diag (CallExpression (Identifier ''pgTable'')
          [Literal (LStr ''users''),
           ObjectExpression [Property (Identifier ''created_at'')
                               (CallExpression (Identifier ''timestamp'') [])]])
          ''missingTimestamps'' [(''tableName'', ''users'')]]"
proof -
  have c: "''pgTable'' \<in> set tableConstructors" by (simp add: tableConstructors_def)
  have n: "columnNames [Property (Identifier ''created_at'')
                               (CallExpression (Identifier ''timestamp'') [])] = [''created_at'']"
    by code_simp
  show ?thesis
    using timestamp_columns_gates [OF c,
        of "[Literal (LStr ''users'')]" "\<lparr>checkTables = None, ignoreTables = None\<rparr>"
           "[]" "[]" "''users''"
           "[Property (Identifier ''created_at'') (CallExpression (Identifier ''timestamp'') [])]"
           "[]"] n
    by simp
qed

subsection \<open>UUID indexes: columns without a name\<close>

lemma chain_is_call:
  "\<exists>c as. chain (CallExpression c0 a0) segs = CallExpression c as"
  by (induction segs arbitrary: c0 a0) auto

lemma findBaseCall_chain:
  "findBaseCall (chain (CallExpression c0 a0) segs) = findBaseCall (CallExpression c0 a0)"
  by (induction segs arbitrary: c0 a0) auto

lemma findBaseCall_constructor:
  "findBaseCall (chain (CallExpression (Identifier ty) bargs) mods) = CallExpression (Identifier ty) bargs"
  by (simp add: findBaseCall_chain)

text \<open>
  C10, as stated: a UUID column whose constructor call has no string-literal first
  argument is never reported. \<open>getColumnName\<close> accepts any literal and converts it
  with \<open>String\<close>: \<open>id: uuid(5)\<close> has no string-literal argument and is reported, as
  column \<open>5\<close>.
\<close>

theorem uuid_numeric_literal_counterexample:
  "uuidIndexRule (Program [CallExpression (Identifier ''pgTable'')
      [Literal (LStr ''posts''),
       ObjectExpression [Property (Identifier ''id'')
          (CallExpression (Identifier ''uuid'') [Literal (LNum ''5'')])]]])
   = [Diag (CallExpression (Identifier ''uuid'') [Literal (LNum ''5'')])
        ''enforceUUIDIndexes'' [(''columnName'', ''5'')]]"
  by code_simp

text \<open>
  C10, amended. A column \<open>key: ty(bargs).m1(...)...mk(...)\<close> whose constructor call has no
  literal first argument (no argument at all, or a first argument that is not a
  literal) is never reported, whatever its type, its modifiers and the table's
  indexes.
\<close>

theorem uuid_column_without_literal_name:
  assumes "\<forall>l. nth_opt bargs 0 \<noteq> Some (Literal l)"
  shows "uuidIndex_column idx (Property key (chain (CallExpression (Identifier ty) bargs) mods)) = []"
proof -
  obtain c as where call: "chain (CallExpression (Identifier ty) bargs) mods = CallExpression c as"
    using chain_is_call by blast
  have base: "findBaseCall (CallExpression c as) = CallExpression (Identifier ty) bargs"
    using findBaseCall_constructor [of ty bargs mods] call by simp
  have "getColumnName (CallExpression (Identifier ty) bargs) = None"
    using assms by (auto simp: getColumnName_def split: option.splits node.splits)
  then show ?thesis
    by (simp add: uuidIndex_column_def call base Let_def split: node.splits)
qed

theorem uuid_column_without_literal_name_witness:
  "uuidIndex_column [] (Property (Identifier ''id'') (CallExpression (Identifier ''uuid'') [])) = []
   \<and> isUUIDColumn (CallExpression (Identifier ''uuid'') [])
   \<and> \<not> hasColumnLevelIndex (CallExpression (Identifier ''uuid'') [])"
  using uuid_column_without_literal_name [of "[]" "[]" "Identifier ''id''" "''uuid''" "[]"]
  by (simp add: isUUIDColumn_def)


subsection \<open>UUID indexes: property names and declared names\<close>

lemma findOn_chain:
  "''on'' \<notin> fst ` set segs \<Longrightarrow> findOn (chain b segs) = findOn b"
  by (induction segs arbitrary: b) auto

lemma onArgument_member:
  "MemberExpression tbl (Identifier p) \<in> set onargs \<Longrightarrow> p \<in> set (List.map_filter onArgument onargs)"
  by (force simp: List.map_filter_def onArgument_def)

lemma findOn_index_chain:
  assumes "''on'' \<notin> fst ` set outer"
    and "MemberExpression tbl (Identifier p) \<in> set onargs"
  shows "p \<in> set (findOn (chain (CallExpression (MemberExpression recv (Identifier ''on'')) onargs) outer))"
  using assms by (simp add: findOn_chain onArgument_member)

lemma processIndexProperty_chain:
  "processIndexProperty (Property k (chain (CallExpression c0 a0) outer))
   = findOn (chain (CallExpression c0 a0) outer)"
proof -
  obtain c as where "chain (CallExpression c0 a0) outer = CallExpression c as"
    using chain_is_call by blast
  then show ?thesis by (simp add: processIndexProperty_def)
qed

lemma processIndexObject_covers:
  assumes "Property k (chain (CallExpression (MemberExpression recv (Identifier ''on'')) onargs) outer)
             \<in> set iprops"
    and "''on'' \<notin> fst ` set outer"
    and "MemberExpression tbl (Identifier p) \<in> set onargs"
  shows "p \<in> set (processIndexObject (ObjectExpression iprops))"
proof -
  let ?indexProp = "Property k (chain (CallExpression (MemberExpression recv (Identifier ''on'')) onargs) outer)"
  have "p \<in> set (processIndexProperty ?indexProp)"
    using findOn_index_chain [OF assms(2,3)] by (simp only: processIndexProperty_chain)
  then show ?thesis
    using assms(1) by (auto simp: processIndexObject_def)
qed

lemma extractFromBody_object:
  assumes "body = ObjectExpression iprops \<or>
           (body = BlockStatement stmts \<and>
            List.find isReturnStatement stmts = Some (ReturnStatement (Some (ObjectExpression iprops))))"
  shows "extractFromBody body = processIndexObject (ObjectExpression iprops)"
  using assms by (auto simp: extractFromBody_def)

lemma extractIndexedProperties_function:
  assumes "nth_opt args 2 = Some (ArrowFunctionExpression params body) \<or>
           nth_opt args 2 = Some (FunctionExpression params body)"
  shows "extractIndexedProperties (CallExpression callee args) = extractFromBody body"
  using assms by (auto simp: extractIndexedProperties_def)

lemma uuidIndex_column_covered:
  "propertyName \<in> set idx \<Longrightarrow> uuidIndex_column idx (Property (Identifier propertyName) column) = []"
  by (simp add: uuidIndex_column_def Let_def split: node.splits option.splits)

lemma uuidIndex_column_named:
  "uuidIndex_column idx
     (Property (Identifier propertyName)
        (chain (CallExpression (Identifier ty) (Literal (LStr declaredName) # targs)) mods))
   = (if isUUIDColumn (CallExpression (Identifier ty) (Literal (LStr declaredName) # targs))
         \<and> declaredName \<noteq> []
         \<and> \<not> hasColumnLevelIndex
               (chain (CallExpression (Identifier ty) (Literal (LStr declaredName) # targs)) mods)
         \<and> propertyName \<notin> set idx
      then [Diag (chain (CallExpression (Identifier ty) (Literal (LStr declaredName) # targs)) mods)
              ''enforceUUIDIndexes'' [(''columnName'', declaredName)]]
      else [])"
proof -
  let ?base = "CallExpression (Identifier ty) (Literal (LStr declaredName) # targs)"
  obtain c as where call: "chain ?base mods = CallExpression c as"
    using chain_is_call by blast
  have base: "findBaseCall (CallExpression c as) = ?base"
    using findBaseCall_constructor [of ty "Literal (LStr declaredName) # targs" mods] call by simp
  have name: "getColumnName ?base = Some declaredName"
    by (simp add: getColumnName_def)
  have "uuidIndex_column idx (Property (Identifier propertyName) (CallExpression c as))
        = (if isUUIDColumn ?base \<and> declaredName \<noteq> []
              \<and> \<not> hasColumnLevelIndex (CallExpression c as) \<and> propertyName \<notin> set idx
           then [Diag (CallExpression c as) ''enforceUUIDIndexes'' [(''columnName'', declaredName)]]
           else [])"
    by (simp add: uuidIndex_column_def base name Let_def)
  then show ?thesis by (simp only: call)
qed


lemma uuidIndex_CallExpression_columns:
  assumes "ctor \<in> set tableConstructors"
    and "nth_opt args 1 = Some (ObjectExpression cols)"
  shows "uuidIndex_CallExpression (CallExpression (Identifier ctor) args)
         = concat (map (uuidIndex_column
                          (extractIndexedProperties (CallExpression (Identifier ctor) args))) cols)"
  using assms by (simp add: uuidIndex_CallExpression_def isTableCall_constructor)

text \<open>
  C3, as stated: in every table declaration, a UUID column \<open>userId: uuid('user_id')\<close>
  covered by an index declared via \<open>.on(table.userId)\<close> is never flagged. The rule
  reads indexes only from an object literal that the third argument is or returns.
  When the callback returns an array,
  \<open>pgTable('posts', { userId: uuid('user_id') }, (table) => [index('x').on(table.userId)])\<close>,
  no indexed property is found and the covered column is flagged.
\<close>

theorem uuid_index_array_callback_counterexample:
  "uuidIndex_CallExpression
     (CallExpression (Identifier ''pgTable'')
        [Literal (LStr ''posts''),
         ObjectExpression
           [Property (Identifier ''userId'')
              (CallExpression (Identifier ''uuid'') [Literal (LStr ''user_id'')])],
         ArrowFunctionExpression [Identifier ''table'']
           (OtherNode ''ArrayExpression''
              [CallExpression
                 (MemberExpression (CallExpression (Identifier ''index'') [Literal (LStr ''x'')])
                                   (Identifier ''on''))
                 [MemberExpression (Identifier ''table'') (Identifier ''userId'')]])])
   = [Diag (CallExpression (Identifier ''uuid'') [Literal (LStr ''user_id'')])
        ''enforceUUIDIndexes'' [(''columnName'', ''user_id'')]]"
  by code_simp

text \<open>
  C3, amended. The uuid-index check cross-references table-level indexes by property
  name, for indexes declared in an object literal. For a table declaration whose
  third argument is an arrow function or function expression whose body is an object
  literal, or a block whose first return statement returns one, and where a property
  of that literal has a value \<open>....on(..., tbl.propertyName, ...)\<close>, this \<open>on\<close> call being
  the outermost \<open>on\<close> of the value (further calls other than \<open>on\<close> may follow it):
  the handler's diagnostics are those of the columns, one column at a time; a column
  with the key \<open>propertyName\<close> is never flagged, whatever its declared name; and a
  column \<open>pn: ty('declaredName', ...).m1(...)...\<close> is flagged exactly when it is UUID-like,
  has no column-level index and \<open>pn\<close> (not the declared name) is not among the
  indexed properties, with a diagnostic that names the declared name.
\<close>

theorem uuid_index_cross_reference:
  assumes "ctor \<in> set tableConstructors"
    and "nth_opt args 1 = Some (ObjectExpression cols)"
    and "nth_opt args 2 = Some (ArrowFunctionExpression params body) \<or>
         nth_opt args 2 = Some (FunctionExpression params body)"
    and "body = ObjectExpression iprops \<or>
         (body = BlockStatement stmts \<and>
          List.find isReturnStatement stmts = Some (ReturnStatement (Some (ObjectExpression iprops))))"
    and "Property k (chain (CallExpression (MemberExpression recv (Identifier ''on'')) onargs) outer)
           \<in> set iprops"
    and "''on'' \<notin> fst ` set outer"
    and "MemberExpression tbl (Identifier propertyName) \<in> set onargs"
  shows "uuidIndex_CallExpression (CallExpression (Identifier ctor) args)
         = concat (map (uuidIndex_column
                          (extractIndexedProperties (CallExpression (Identifier ctor) args))) cols)
       \<and> uuidIndex_column (extractIndexedProperties (CallExpression (Identifier ctor) args))
           (Property (Identifier propertyName) column) = []
       \<and> uuidIndex_column idx
           (Property (Identifier pn)
              (chain (CallExpression (Identifier ty) (Literal (LStr declaredName) # targs)) mods))
         = (if isUUIDColumn (CallExpression (Identifier ty) (Literal (LStr declaredName) # targs))
               \<and> declaredName \<noteq> []
               \<and> \<not> hasColumnLevelIndex
                     (chain (CallExpression (Identifier ty) (Literal (LStr declaredName) # targs)) mods)
               \<and> pn \<notin> set idx
            then [Diag (chain (CallExpression (Identifier ty) (Literal (LStr declaredName) # targs)) mods)
                    ''enforceUUIDIndexes'' [(''columnName'', declaredName)]]
            else [])"
proof -
  have "extractIndexedProperties (CallExpression (Identifier ctor) args)
        = processIndexObject (ObjectExpression iprops)"
    using assms(3,4) by (simp only: extractIndexedProperties_function extractFromBody_object)
  then have "propertyName \<in> set (extractIndexedProperties (CallExpression (Identifier ctor) args))"
    using processIndexObject_covers [OF assms(5,6,7)] by simp
  then show ?thesis
    using uuidIndex_CallExpression_columns [OF assms(1,2)]
    by (simp only: uuidIndex_column_covered uuidIndex_column_named)
qed

theorem uuid_index_cross_reference_witness:
  "uuidIndex_CallExpression
     (CallExpression (Identifier ''pgTable'')
        [Literal (LStr ''posts''),
         ObjectExpression
           [Property (Identifier ''userId'')
              (CallExpression (Identifier ''uuid'') [Literal (LStr ''user_id'')])],
         ArrowFunctionExpression [Identifier ''table'']
           (ObjectExpression
              [Property (Identifier ''idx'')
                 (CallExpression
                    (MemberExpression (CallExpression (Identifier ''index'') [Literal (LStr ''x'')])
                                      (Identifier ''on''))
                    [MemberExpression (Identifier ''table'') (Identifier ''userId'')])])])
   = []
   \<and> uuidIndex_column []
       (Property (Identifier ''userId'')
          (CallExpression (Identifier ''uuid'') [Literal (LStr ''user_id'')]))
     = [Diag (CallExpression (Identifier ''uuid'') [Literal (LStr ''user_id'')])
          ''enforceUUIDIndexes'' [(''columnName'', ''user_id'')]]"
proof -
  have c: "''pgTable'' \<in> set tableConstructors" by (simp add: tableConstructors_def)
  have u: "isUUIDColumn (CallExpression (Identifier ''uuid'') [Literal (LStr ''user_id'')])"
    by (simp add: isUUIDColumn_def)
  show ?thesis
    using uuid_index_cross_reference [OF c,
        of "[Literal (LStr ''posts''),
             ObjectExpression
               [Property (Identifier ''userId'')
                  (CallExpression (Identifier ''uuid'') [Literal (LStr ''user_id'')])],
             ArrowFunctionExpression [Identifier ''table'']
               (ObjectExpression
                  [Property (Identifier ''idx'')
                     (CallExpression
                        (MemberExpression (CallExpression (Identifier ''index'') [Literal (LStr ''x'')])
                                          (Identifier ''on''))
                        [MemberExpression (Identifier ''table'') (Identifier ''userId'')])])]"
           "[Property (Identifier ''userId'')
                  (CallExpression (Identifier ''uuid'') [Literal (LStr ''user_id'')])]"
           "[Identifier ''table'']"
           "ObjectExpression
                  [Property (Identifier ''idx'')
                     (CallExpression
                        (MemberExpression (CallExpression (Identifier ''index'') [Literal (LStr ''x'')])
                                          (Identifier ''on''))
                        [MemberExpression (Identifier ''table'') (Identifier ''userId'')])]"
           "[Property (Identifier ''idx'')
                     (CallExpression
                        (MemberExpression (CallExpression (Identifier ''index'') [Literal (LStr ''x'')])
                                          (Identifier ''on''))
                        [MemberExpression (Identifier ''table'') (Identifier ''userId'')])]"
           "[]" "Identifier ''idx''" "CallExpression (Identifier ''index'') [Literal (LStr ''x'')]"
           "[MemberExpression (Identifier ''table'') (Identifier ''userId'')]" "[]"
           "Identifier ''table''" "''userId''"
           "CallExpression (Identifier ''uuid'') [Literal (LStr ''user_id'')]"
           "[]" "''userId''" "''uuid''" "''user_id''" "[]" "[]"] u
    by (simp add: numeral_2_eq_2)
qed


subsection \<open>Row-level security: collecting and finalizing\<close>

lemma trackTable_tableDeclaration:
  "trackTable st node =
     (case tableDeclaration node of
        Some (t, v) \<Rightarrow> st\<lparr>tablesFound := map_set t v (tablesFound st)\<rparr>
      | None \<Rightarrow> st)"
  by (simp add: trackTable_def tableDeclaration_def tableNameOf_def isTableCall_def
      split: node.splits option.splits lit.splits)

lemma tablesFound_step:
  "tablesFound (rls_CallExpression st node) =
     (case tableDeclaration node of
        Some (t, v) \<Rightarrow> map_set t v (tablesFound st)
      | None \<Rightarrow> tablesFound st)"
  by (simp add: rls_CallExpression_def trackSql_def trackTable_tableDeclaration Let_def
      split: option.splits)

lemma tablesWithRLS_step:
  "tablesWithRLS (rls_CallExpression st node) =
     (case rlsName node of Some t \<Rightarrow> insert t (tablesWithRLS st) | None \<Rightarrow> tablesWithRLS st)"
  by (simp add: rls_CallExpression_def trackSql_def trackTable_tableDeclaration Let_def rlsName_def
      split: option.splits)

lemma tablesWithPolicies_step:
  "tablesWithPolicies (rls_CallExpression st node) =
     (case policyName node of
        Some t \<Rightarrow> insert t (tablesWithPolicies st)
      | None \<Rightarrow> tablesWithPolicies st)"
  by (simp add: rls_CallExpression_def trackSql_def trackTable_tableDeclaration Let_def
      policyName_def split: option.splits)

lemma tablesFound_fold:
  "tablesFound (foldl rls_CallExpression st ns)
   = foldl (\<lambda>m (t, v). map_set t v m) (tablesFound st) (declaredTables ns)"
proof (induction ns arbitrary: st)
  case Nil
  show ?case by (simp add: declaredTables_def List.map_filter_def)
next
  case (Cons n ns)
  show ?case
    by (cases "tableDeclaration n")
       (auto simp: Cons.IH tablesFound_step declaredTables_def List.map_filter_def)
qed

lemma tablesWithRLS_fold:
  "tablesWithRLS (foldl rls_CallExpression st ns) = tablesWithRLS st \<union> set (rlsNames ns)"
proof (induction ns arbitrary: st)
  case Nil
  show ?case by (simp add: rlsNames_def List.map_filter_def)
next
  case (Cons n ns)
  show ?case
    by (cases "rlsName n")
       (auto simp: Cons.IH tablesWithRLS_step rlsNames_def List.map_filter_def)
qed

lemma tablesWithPolicies_fold:
  "tablesWithPolicies (foldl rls_CallExpression st ns)
   = tablesWithPolicies st \<union> set (policyNames ns)"
proof (induction ns arbitrary: st)
  case Nil
  show ?case by (simp add: policyNames_def List.map_filter_def)
next
  case (Cons n ns)
  show ?case
    by (cases "policyName n")
       (auto simp: Cons.IH tablesWithPolicies_step policyNames_def List.map_filter_def)
qed

text \<open>The \<open>Map\<close>: keys in order of first insertion, the last value of each key.\<close>

lemma map_set_keys:
  "map fst (map_set k v m) = (if k \<in> set (map fst m) then map fst m else map fst m @ [k])"
  by (induction m) force+

lemma map_set_map_of: "map_of (map_set k v m) = (map_of m)(k \<mapsto> v)"
  by (induction m) (auto simp: fun_eq_iff)

lemma map_set_fold_keys:
  "map fst (foldl (\<lambda>m (t, v). map_set t v m) [] ps) = rev (remdups (rev (map fst ps)))"
proof (induction ps rule: rev_induct)
  case Nil
  show ?case by simp
next
  case (snoc p ps)
  obtain t v where p: "p = (t, v)" by (cases p)
  show ?case
    using snoc by (auto simp: p map_set_keys)
qed

lemma map_set_fold_map_of:
  "map_of (foldl (\<lambda>m (t, v). map_set t v m) [] ps) = map_of (rev ps)"
proof (induction ps rule: rev_induct)
  case Nil
  show ?case by simp
next
  case (snoc p ps)
  obtain t v where p: "p = (t, v)" by (cases p)
  show ?case
    using snoc by (simp add: p map_set_map_of)
qed


lemma map_set_fold_distinct:
  "distinct (map fst (foldl (\<lambda>m (t, v). map_set t v m) [] ps))"
  by (simp add: map_set_fold_keys)

lemma rls_collect_tablesFound:
  "map fst (tablesFound (rls_collect ns)) = declaredOrder ns"
  "map_of (tablesFound (rls_collect ns)) = lastDeclaration ns"
  "distinct (map fst (tablesFound (rls_collect ns)))"
  by (simp_all add: rls_collect_def rls_init_def tablesFound_fold map_set_fold_keys
      map_set_fold_map_of declaredOrder_def lastDeclaration_def fun_eq_iff)

lemma rls_collect_sets:
  "tablesWithRLS (rls_collect ns) = set (rlsNames ns)"
  "tablesWithPolicies (rls_collect ns) = set (policyNames ns)"
  by (simp_all add: rls_collect_def rls_init_def tablesWithRLS_fold tablesWithPolicies_fold)

lemma isSensitiveTable_iff:
  "isSensitiveTable options t =
     (t \<in> set (sensitiveTablesOf options) \<or>
      list_ex (\<lambda>pattern. str_includes (toLowerCase t) (toLowerCase pattern))
              (sensitivePatternsOf options))"
  by (simp add: isSensitiveTable_def Let_def)

lemma rls_checkTable_verdict:
  assumes "map_of (tablesFound (rls_collect ns)) t = Some v"
  shows "rls_checkTable options (rls_collect ns) (t, v) = rls_verdict options ns t"
  using assms
  by (simp add: rls_checkTable_def rls_verdict_def rls_collect_tablesFound(2) rls_collect_sets
      isSensitiveTable_iff)

lemma rls_ProgramExit_verdicts:
  "rls_ProgramExit options (rls_collect ns) = concat (map (rls_verdict options ns) (declaredOrder ns))"
proof -
  let ?m = "tablesFound (rls_collect ns)"
  have "map (rls_checkTable options (rls_collect ns)) ?m
        = map (\<lambda>p. rls_verdict options ns (fst p)) ?m"
  proof (rule map_cong [OF refl])
    fix p assume "p \<in> set ?m"
    then have "map_of ?m (fst p) = Some (snd p)"
      using rls_collect_tablesFound(3) [of ns] by simp
    then show "rls_checkTable options (rls_collect ns) p = rls_verdict options ns (fst p)"
      using rls_checkTable_verdict [of ns "fst p" "snd p" options] by simp
  qed
  also have "\<dots> = map (rls_verdict options ns) (map fst ?m)"
    by simp
  finally show ?thesis
    by (simp only: rls_ProgramExit_def rls_collect_tablesFound(1))
qed


lemma traverse_preorder: "map fst (traverse anc n) = preorder n"
proof (induction n arbitrary: anc)
  case (ReturnStatement x)
  then show ?case by (cases x) simp_all
qed (simp_all add: map_concat comp_def cong: map_cong)

lemma visited_preorder: "visited n = preorder n"
  by (simp add: visited_def traverse_preorder)

lemma visited_Program: "visited (Program ss) = Program ss # concat (map visited ss)"
  by (simp add: visited_preorder cong: map_cong)

lemma declaredTables_append: "declaredTables (xs @ ys) = declaredTables xs @ declaredTables ys"
  by (simp add: declaredTables_def List.map_filter_def)

lemma rlsNames_append: "rlsNames (xs @ ys) = rlsNames xs @ rlsNames ys"
  by (simp add: rlsNames_def List.map_filter_def)

lemma policyNames_append: "policyNames (xs @ ys) = policyNames xs @ policyNames ys"
  by (simp add: policyNames_def List.map_filter_def)

lemma declaredTables_concat: "declaredTables (concat xss) = concat (map declaredTables xss)"
  by (induction xss) (simp_all add: declaredTables_append, simp add: declaredTables_def List.map_filter_def)

lemma rlsNames_concat: "rlsNames (concat xss) = concat (map rlsNames xss)"
  by (induction xss) (simp_all add: rlsNames_append, simp add: rlsNames_def List.map_filter_def)

lemma policyNames_concat: "policyNames (concat xss) = concat (map policyNames xss)"
  by (induction xss) (simp_all add: policyNames_append, simp add: policyNames_def List.map_filter_def)

lemma Program_collects_nothing:
  "declaredTables (Program ss # ns) = declaredTables ns"
  "rlsNames (Program ss # ns) = rlsNames ns"
  "policyNames (Program ss # ns) = policyNames ns"
  by (simp_all add: declaredTables_def rlsNames_def policyNames_def List.map_filter_def
      tableDeclaration_def tableNameOf_def rlsName_def policyName_def sqlContent_def)

lemma requireRLSRule_cong:
  assumes "declaredTables (visited p) = declaredTables (visited q)"
    and "set (rlsNames (visited p)) = set (rlsNames (visited q))"
    and "set (policyNames (visited p)) = set (policyNames (visited q))"
  shows "requireRLSRule options p = requireRLSRule options q"
proof -
  have "rls_verdict options (visited p) = rls_verdict options (visited q)"
    by (simp add: rls_verdict_def lastDeclaration_def fun_eq_iff assms split: option.splits)
  moreover have "declaredOrder (visited p) = declaredOrder (visited q)"
    using assms(1) by (simp add: declaredOrder_def)
  ultimately show ?thesis
    by (simp add: requireRLSRule_def rls_ProgramExit_verdicts)
qed

text \<open>
  C6. Finalize-order independence. In any unit, a statement \<open>S\<close> that declares no table
  (such as the statement that enables row-level security) may stand before the table
  declaration \<open>T\<close> or after it: the diagnostics of the access-control check are the
  same list. In particular the two units \<open>S; T\<close> and \<open>T; S\<close> get the same diagnostics.
\<close>

theorem rls_order_independent:
  assumes "declaredTables (visited S) = []"
  shows "requireRLSRule options (Program (before @ [S] @ between @ [T] @ between' @ after))
       = requireRLSRule options (Program (before @ between @ [T] @ between' @ [S] @ after))"
proof (rule requireRLSRule_cong)
  show "declaredTables (visited (Program (before @ [S] @ between @ [T] @ between' @ after)))
      = declaredTables (visited (Program (before @ between @ [T] @ between' @ [S] @ after)))"
    using assms
    by (simp add: visited_Program Program_collects_nothing declaredTables_concat declaredTables_append)
  show "set (rlsNames (visited (Program (before @ [S] @ between @ [T] @ between' @ after))))
      = set (rlsNames (visited (Program (before @ between @ [T] @ between' @ [S] @ after))))"
    by (auto simp: visited_Program Program_collects_nothing rlsNames_concat rlsNames_append)
  show "set (policyNames (visited (Program (before @ [S] @ between @ [T] @ between' @ after))))
      = set (policyNames (visited (Program (before @ between @ [T] @ between' @ [S] @ after))))"
    by (auto simp: visited_Program Program_collects_nothing policyNames_concat policyNames_append)
qed

text \<open>
  C5. After the traversal, the access-control check goes through the declared table
  names, each once, in order of first declaration, and emits for each its verdict:
  nothing when the name is not sensitive (not in the explicit list and no configured
  pattern, lowercased, occurs in the lowercased name); otherwise one \<open>missingRLS\<close> when
  the name was not captured from an enable-row-security statement, else one
  \<open>missingPolicy\<close> when it was not captured from a create-policy statement, else
  nothing. The diagnostic is located at the (last) declaration of the name.
\<close>

theorem rls_finalize_verdicts:
  "requireRLSRule options prog
   = concat (map (rls_verdict options (visited prog)) (declaredOrder (visited prog)))
   \<and> distinct (declaredOrder (visited prog))
   \<and> set (declaredOrder (visited prog)) = fst ` set (declaredTables (visited prog))
   \<and> length (rls_verdict options (visited prog) t) \<le> 1"
  by (simp add: requireRLSRule_def rls_ProgramExit_verdicts declaredOrder_def rls_verdict_def
      split: option.splits)


theorem rls_order_independent_witness:
  "requireRLSRule \<lparr>sensitiveTables = None, sensitivePatterns = None\<rparr>
     (Program [CallExpression (Identifier ''sql'')
                 [TemplateLiteral [''ALTER TABLE users ENABLE ROW LEVEL SECURITY''] []],
               CallExpression (Identifier ''pgTable'') [Literal (LStr ''users''), ObjectExpression []]])
   = [Diag (CallExpression (Identifier ''pgTable'') [Literal (LStr ''users''), ObjectExpression []])
        ''missingPolicy'' [(''table'', ''users'')]]
   \<and>
   requireRLSRule \<lparr>sensitiveTables = None, sensitivePatterns = None\<rparr>
     (Program [CallExpression (Identifier ''pgTable'') [Literal (LStr ''users''), ObjectExpression []],
               CallExpression (Identifier ''sql'')
                 [TemplateLiteral [''ALTER TABLE users ENABLE ROW LEVEL SECURITY''] []]])
   = [Diag (CallExpression (Identifier ''pgTable'') [Literal (LStr ''users''), ObjectExpression []])
        ''missingPolicy'' [(''table'', ''users'')]]"
proof -
  let ?S = "CallExpression (Identifier ''sql'')
              [TemplateLiteral [''ALTER TABLE users ENABLE ROW LEVEL SECURITY''] []]"
  let ?T = "CallExpression (Identifier ''pgTable'') [Literal (LStr ''users''), ObjectExpression []]"
  let ?o = "\<lparr>sensitiveTables = None, sensitivePatterns = None\<rparr>"
  have h: "declaredTables (visited ?S) = []"
    by code_simp
  have a: "requireRLSRule ?o (Program [?S, ?T]) = [Diag ?T ''missingPolicy'' [(''table'', ''users'')]]"
    by code_simp
  have "requireRLSRule ?o (Program [?S, ?T]) = requireRLSRule ?o (Program [?T, ?S])"
    using rls_order_independent [OF h, of ?o "[]" "[]" ?T "[]" "[]"] by simp
  then show ?thesis using a by simp
qed

theorem rls_finalize_verdicts_witness:
  "requireRLSRule \<lparr>sensitiveTables = Some [''ledger''], sensitivePatterns = None\<rparr>
     (Program [CallExpression (Identifier ''pgTable'') [Literal (LStr ''users''), ObjectExpression []],
               CallExpression (Identifier ''pgTable'') [Literal (LStr ''Accounts''), ObjectExpression []],
               CallExpression (Identifier ''pgTable'') [Literal (LStr ''posts''), ObjectExpression []],
               CallExpression (Identifier ''pgTable'') [Literal (LStr ''ledger''), ObjectExpression []],
               CallExpression (Identifier ''sql'')
                 [TemplateLiteral [''ALTER TABLE Accounts ENABLE ROW LEVEL SECURITY''] []],
               CallExpression (Identifier ''sql'')
                 [TemplateLiteral [''ALTER TABLE ledger ENABLE ROW LEVEL SECURITY''] []],
               CallExpression (Identifier ''sql'')
                 [TemplateLiteral [''CREATE POLICY p ON ledger USING (true)''] []]])
   = [Diag (CallExpression (Identifier ''pgTable'') [Literal (LStr ''users''), ObjectExpression []])
        ''missingRLS'' [(''table'', ''users'')],
      Diag (CallExpression (Identifier ''pgTable'') [Literal (LStr ''Accounts''), ObjectExpression []])
        ''missingPolicy'' [(''table'', ''Accounts'')]]"
proof -
  let ?o = "\<lparr>sensitiveTables = Some [''ledger''], sensitivePatterns = None\<rparr>"
  let ?p = "Program [CallExpression (Identifier ''pgTable'') [Literal (LStr ''users''), ObjectExpression []],
               CallExpression (Identifier ''pgTable'') [Literal (LStr ''Accounts''), ObjectExpression []],
               CallExpression (Identifier ''pgTable'') [Literal (LStr ''posts''), ObjectExpression []],
               CallExpression (Identifier ''pgTable'') [Literal (LStr ''ledger''), ObjectExpression []],
               CallExpression (Identifier ''sql'')
                 [TemplateLiteral [''ALTER TABLE Accounts ENABLE ROW LEVEL SECURITY''] []],
               CallExpression (Identifier ''sql'')
                 [TemplateLiteral [''ALTER TABLE ledger ENABLE ROW LEVEL SECURITY''] []],
               CallExpression (Identifier ''sql'')
                 [TemplateLiteral [''CREATE POLICY p ON ledger USING (true)''] []]]"
  have r: "concat (map (rls_verdict ?o (visited ?p)) (declaredOrder (visited ?p)))
     = [Diag (CallExpression (Identifier ''pgTable'') [Literal (LStr ''users''), ObjectExpression []])
        ''missingRLS'' [(''table'', ''users'')],
      Diag (CallExpression (Identifier ''pgTable'') [Literal (LStr ''Accounts''), ObjectExpression []])
        ''missingPolicy'' [(''table'', ''Accounts'')]]"
    by code_simp
  show ?thesis
    using rls_finalize_verdicts [of ?o ?p] r by simp
qed

subsection \<open>Agreement with the repository's tests\<close>

text \<open>
  Cases of the repository's own rule tests, run on the model: three sensitive tables
  without row-level security, the explicit table list, and the snake-case fixtures.
\<close>

lemma rls_test_multiple_sensitive_tables:
  "map (\<lambda>d. (d_msg d, d_data d))
     (requireRLSRule \<lparr>sensitiveTables = None, sensitivePatterns = None\<rparr>
        (Program
           [OtherNode ''VariableDeclaration'' [OtherNode ''VariableDeclarator''
              [Identifier ''accounts'',
               CallExpression (Identifier ''pgTable'')
                 [Literal (LStr ''accounts''),
                  ObjectExpression [Property (Identifier ''id'')
                     (CallExpression (Identifier ''uuid'') [Literal (LStr ''id'')])]]]],
            OtherNode ''VariableDeclaration'' [OtherNode ''VariableDeclarator''
              [Identifier ''user_profiles'',
               CallExpression (Identifier ''pgTable'')
                 [Literal (LStr ''user_profiles''),
                  ObjectExpression [Property (Identifier ''id'')
                     (CallExpression (Identifier ''uuid'') [Literal (LStr ''id'')])]]]],
            OtherNode ''VariableDeclaration'' [OtherNode ''VariableDeclarator''
              [Identifier ''payment_methods'',
               CallExpression (Identifier ''pgTable'')
                 [Literal (LStr ''payment_methods''),
                  ObjectExpression [Property (Identifier ''id'')
                     (CallExpression (Identifier ''uuid'') [Literal (LStr ''id'')])]]]]]))
   = [(''missingRLS'', [(''table'', ''accounts'')]),
      (''missingRLS'', [(''table'', ''user_profiles'')]),
      (''missingRLS'', [(''table'', ''payment_methods'')])]"
  by code_simp

lemma rls_test_listed_tables_only:
  "requireRLSRule \<lparr>sensitiveTables = Some [''users'', ''accounts''], sensitivePatterns = None\<rparr>
        (Program
           [OtherNode ''VariableDeclaration'' [OtherNode ''VariableDeclarator''
              [Identifier ''logs'',
               CallExpression (Identifier ''pgTable'')
                 [Literal (LStr ''logs''),
                  ObjectExpression
                    [Property (Identifier ''id'')
                       (CallExpression (Identifier ''uuid'') [Literal (LStr ''id'')]),
                     Property (Identifier ''message'')
                       (CallExpression (Identifier ''text'') [Literal (LStr ''message'')])]]]]])
   = []
   \<and> map (\<lambda>d. (d_msg d, d_data d))
     (requireRLSRule \<lparr>sensitiveTables = Some [''customers'', ''orders''], sensitivePatterns = None\<rparr>
        (Program
           [OtherNode ''VariableDeclaration'' [OtherNode ''VariableDeclarator''
              [Identifier ''customers'',
               CallExpression (Identifier ''pgTable'')
                 [Literal (LStr ''customers''),
                  ObjectExpression
                    [Property (Identifier ''id'')
                       (CallExpression (Identifier ''uuid'') [Literal (LStr ''id'')]),
                     Property (Identifier ''name'')
                       (CallExpression (Identifier ''text'') [Literal (LStr ''name'')])]]]]]))
   = [(''missingRLS'', [(''table'', ''customers'')])]"
  by code_simp

lemma snake_case_test_mixed_case:
  "map d_data
     (snakeCaseRule
        (Program
           [OtherNode ''VariableDeclaration'' [OtherNode ''VariableDeclarator''
              [Identifier ''UserPosts'',
               CallExpression (Identifier ''pgTable'')
                 [Literal (LStr ''UserPosts''),
                  ObjectExpression
                    [Property (Identifier ''postId'')
                       (CallExpression (Identifier ''uuid'') [Literal (LStr ''postId'')]),
                     Property (Identifier ''userId'')
                       (CallExpression (Identifier ''uuid'') [Literal (LStr ''userId'')]),
                     Property (Identifier ''publishedAt'')
                       (CallExpression (Identifier ''timestamp'') [Literal (LStr ''publishedAt'')])]]]]]))
   = [[(''name'', ''UserPosts'')], [(''name'', ''postId'')], [(''name'', ''userId'')],
      [(''name'', ''publishedAt'')]]"
  by code_simp

lemma snake_case_test_valid:
  "snakeCaseRule
        (Program
           [OtherNode ''VariableDeclaration'' [OtherNode ''VariableDeclarator''
              [Identifier ''oauth2_tokens'',
               CallExpression (Identifier ''pgTable'')
                 [Literal (LStr ''oauth2_tokens''),
                  ObjectExpression
                    [Property (Identifier ''id'')
                       (CallExpression (Identifier ''uuid'') [Literal (LStr ''id'')]),
                     Property (Identifier ''token_v2'')
                       (CallExpression (Identifier ''text'') [Literal (LStr ''token_v2'')]),
                     Property (Identifier ''expires_in_30_days'')
                       (CallExpression (Identifier ''boolean'') [Literal (LStr ''expires_in_30_days'')]),
                     Property (Identifier ''createdAt'')
                       (CallExpression (Identifier ''timestamp'') [Literal (LStr ''createdAt'')])]]]]])
   = []"
  by code_simp

end
